theory Spec2Isabelle
  imports Main "HOL-Library.Sublist"
begin

section \<open>Strings\<close>

text \<open>
  A Python \<open>str\<close> is modelled as a HOL \<open>string\<close>: a list of 8-bit characters, read
  as the code points below 256. The character classes below are Python's on that range.
\<close>

text \<open>\<open>str.isspace\<close> on one character: what \<open>str.strip()\<close> removes.\<close>

definition is_space :: "char \<Rightarrow> bool" where
  "is_space c = ((of_char c :: nat) \<in> {9, 10, 11, 12, 13, 28, 29, 30, 31, 32, 133, 160})"

text \<open>\<open>str.lower\<close> on one character: A-Z, and the upper-case letters of Latin-1.\<close>

definition py_lower_char :: "char \<Rightarrow> char" where
  "py_lower_char c =
     (let n = (of_char c :: nat)
      in if (65 \<le> n \<and> n \<le> 90) \<or> (192 \<le> n \<and> n \<le> 222 \<and> n \<noteq> 215)
         then char_of (n + 32) else c)"

definition py_lower :: "string \<Rightarrow> string" where
  "py_lower s = map py_lower_char s"

text \<open>\<open>s.strip()\<close> and \<open>s.strip(c)\<close> for a single character \<open>c\<close>.\<close>

definition py_strip :: "string \<Rightarrow> string" where
  "py_strip s = rev (dropWhile is_space (rev (dropWhile is_space s)))"

definition strip_char :: "char \<Rightarrow> string \<Rightarrow> string" where
  "strip_char c s = rev (dropWhile (\<lambda>x. x = c) (rev (dropWhile (\<lambda>x. x = c) s)))"

text \<open>\<open>str(n)\<close> for an integer: decimal digits, with a minus sign.\<close>

definition digit_char :: "nat \<Rightarrow> char" where
  "digit_char d = char_of (48 + d)"

fun nat_digits :: "nat \<Rightarrow> string" where
  "nat_digits n = (if n < 10 then [digit_char n] else nat_digits (n div 10) @ [digit_char (n mod 10)])"

definition str_int :: "int \<Rightarrow> string" where
  "str_int i = (if i < 0 then CHR ''-'' # nat_digits (nat (- i)) else nat_digits (nat i))"

section \<open>Slugification\<close>

text \<open>
  \<^verbatim>\<open>_slug_re = re.compile(r"[^a-z0-9]+")\<close>: a character the pattern does not match is
  one of a-z or 0-9.
\<close>

definition is_slug_char :: "char \<Rightarrow> bool" where
  "is_slug_char c =
     (let n = (of_char c :: nat) in (97 \<le> n \<and> n \<le> 122) \<or> (48 \<le> n \<and> n \<le> 57))"

text \<open>
  \<^verbatim>\<open>_slug_re.sub(".", s)\<close>: scanning from the left, each match of the pattern is a
  maximal run of characters outside a-z0-9 (the \<open>+\<close> is greedy), replaced by one dot.
\<close>

function slug_re_sub :: "string \<Rightarrow> string" where
  "slug_re_sub [] = []"
| "slug_re_sub (c # cs) =
     (if is_slug_char c then c # slug_re_sub cs
      else CHR ''.'' # slug_re_sub (dropWhile (\<lambda>x. \<not> is_slug_char x) cs))"
  by pat_completeness auto
termination
  by (relation "measure length") (auto simp: less_Suc_eq_le length_dropWhile_le)

text \<open>
  \<^verbatim>\<open>
  def _slugify(s: str) -> str:
      s = s.strip().lower()
      s = _slug_re.sub(".", s).strip(".")
      return s or "user"
  \<close>
\<close>

definition slugify :: "string \<Rightarrow> string" where
  "slugify s =
     (let s1 = py_lower (py_strip s);
          s2 = strip_char CHR ''.'' (slug_re_sub s1)
      in if s2 = [] then ''user'' else s2)"

subsection \<open>The specification's wording of slugification\<close>

text \<open>
  The specification describes slugification in four steps: lowercase; collapse any run
  of non-alphanumeric characters to a single separator; trim leading and trailing
  separators; an empty result falls back to a literal placeholder. The definitions of
  this subsection follow those words, not the code. An alphanumeric character is an
  ASCII letter or digit; a letter outside ASCII counts as non-alphanumeric, like
  punctuation and white space.
\<close>

definition is_alnum :: "char \<Rightarrow> bool" where
  "is_alnum c =
     (let n = (of_char c :: nat)
      in (97 \<le> n \<and> n \<le> 122) \<or> (65 \<le> n \<and> n \<le> 90) \<or> (48 \<le> n \<and> n \<le> 57))"

definition separator :: char where
  "separator = CHR ''.''"

definition placeholder :: string where
  "placeholder = ''user''"

fun collapse_runs :: "string \<Rightarrow> string" where
  "collapse_runs [] = []"
| "collapse_runs [c] = [if is_alnum c then c else separator]"
| "collapse_runs (c # d # cs) =
     (if \<not> is_alnum c \<and> \<not> is_alnum d then collapse_runs (d # cs)
      else (if is_alnum c then c else separator) # collapse_runs (d # cs))"

definition trim_separators :: "string \<Rightarrow> string" where
  "trim_separators s =
     rev (dropWhile (\<lambda>x. x = separator) (rev (dropWhile (\<lambda>x. x = separator) s)))"

definition spec_slugify :: "string \<Rightarrow> string" where
  "spec_slugify s =
     (let t = trim_separators (collapse_runs (map py_lower_char s))
      in if t = [] then placeholder else t)"

section \<open>Python values and exceptions\<close>

text \<open>
  The values that travel through tool arguments, tool results and message contents: the
  JSON-compatible part of Python's values. A \<open>dict\<close> is an association list in
  insertion order; its keys are values (\<open>json.dumps\<close> takes a dict with integer keys
  too). The dicts the program builds itself, and the argument dicts of tool calls, have
  string keys: they are \<open>pydict\<close>, and \<open>dict_val\<close> is such a dict as a value.
\<close>

datatype pyval =
    PNone
  | PBool bool
  | PInt int
  | PStr string
  | PList "pyval list"
  | PDict "(pyval \<times> pyval) list"

type_synonym anydict = "(pyval \<times> pyval) list"

type_synonym pydict = "(string \<times> pyval) list"

definition dict_val :: "pydict \<Rightarrow> pyval" where
  "dict_val d = PDict (map (\<lambda>(k, v). (PStr k, v)) d)"

text \<open>
  An exception is its class, as far as the \<^verbatim>\<open>except\<close> clauses of the program tell
  classes apart, and its text \<open>str(e)\<close>. Every class here is a subclass of
  \<open>Exception\<close>; what \<^verbatim>\<open>except Exception\<close> does not catch (\<open>KeyboardInterrupt\<close>,
  \<open>SystemExit\<close>) is not modelled.
\<close>

datatype exc_class =
    FileNotFoundError | NotADirectoryError | IsADirectoryError | JSONDecodeError
  | UnicodeDecodeError | RecursionError | ValidationError | ValueError | KeyError
  | ZeroDivisionError | OtherError

datatype py_exception = Exc exc_class string

fun exc_class_of :: "py_exception \<Rightarrow> exc_class" where
  "exc_class_of (Exc k m) = k"

fun exc_str :: "py_exception \<Rightarrow> string" where
  "exc_str (Exc k m) = m"

text \<open>\<^verbatim>\<open>f"'{s}'"\<close>: a text between single quotes.\<close>

definition quoted :: "string \<Rightarrow> string" where
  "quoted s = [CHR 0x27] @ s @ [CHR 0x27]"

section \<open>The libraries and the world outside the program\<close>

text \<open>
  The program calls Python's \<open>json\<close> module, the built-in \<open>repr\<close>, the wall clock,
  the file system, and the argument validation that the \<^verbatim>\<open>@tool\<close> decorator puts
  before a tool's body. None of them is code of this repository: they are the fields of a
  \<open>runtime\<close>, and every theorem holds for every runtime.
  \<^item> \<open>json_dumps_pretty\<close> is \<^verbatim>\<open>json.dumps(v, indent=2, ensure_ascii=False)\<close>,
    \<open>json_dumps\<close> is \<^verbatim>\<open>json.dumps(v)\<close>, \<open>json_loads\<close> is \<^verbatim>\<open>json.loads(s)\<close>;
    each may raise.
  \<^item> \<open>py_repr\<close> is what \<open>str\<close> gives for a value that is neither a string nor an integer.
  \<^item> \<open>iso_days_ago k d\<close> is \<^verbatim>\<open>(_tznow() - timedelta(days=d)).isoformat()\<close> at the
    \<open>k\<close>-th reading of the clock.
  \<^item> \<open>bind_...\<close> turn the argument dict of a tool call into the typed arguments of the
    tool's function, or raise a validation error.
  \<^item> The state of the file system is a value of a type \<open>'fs\<close> that the program never
    looks into. \<open>fs_read_text\<close> is \<^verbatim>\<open>Path(p).read_text(encoding="utf-8")\<close>: the text
    of the file, or the exception raised. \<open>fs_write_text\<close> is
    \<^verbatim>\<open>p.parent.mkdir(parents=True, exist_ok=True); p.write_text(t, encoding="utf-8")\<close>:
    the exception raised, if any, and the state afterwards. Nothing is assumed of them:
    what a later read of a path returns after a write is the file system's business
    (a regular file, a device, a path below a file, two spellings of one path).
\<close>

record 'fs runtime =
  json_dumps_pretty :: "pyval \<Rightarrow> py_exception + string"
  json_dumps :: "pyval \<Rightarrow> py_exception + string"
  json_loads :: "string \<Rightarrow> py_exception + pyval"
  py_repr :: "pyval \<Rightarrow> string"
  iso_days_ago :: "nat \<Rightarrow> int \<Rightarrow> string"
  bind_write_json :: "pydict \<Rightarrow> py_exception + (string \<times> anydict)"
  bind_read_json :: "pydict \<Rightarrow> py_exception + string"
  bind_generate_sample_user ::
    "pydict \<Rightarrow> py_exception + (string list \<times> string list \<times> string list \<times> int \<times> int)"
  bind_save_users ::
    "pydict \<Rightarrow> py_exception +
       (string \<times> string list option \<times> string list option \<times> string list option \<times> int \<times> int)"
  fs_read_text :: "'fs \<Rightarrow> string \<Rightarrow> py_exception + string"
  fs_write_text :: "'fs \<Rightarrow> string \<Rightarrow> string \<Rightarrow> py_exception option \<times> 'fs"

text \<open>\<open>str(v)\<close>, as f-strings and \<^verbatim>\<open>str(result)\<close> apply it.\<close>

definition py_str :: "'fs runtime \<Rightarrow> pyval \<Rightarrow> string" where
  "py_str rt v = (case v of PStr s \<Rightarrow> s | PInt i \<Rightarrow> str_int i | _ \<Rightarrow> py_repr rt v)"

text \<open>
  The state the program changes: the file system, the random generator and the clock.
  \<open>draws\<close> is the generator's raw output and \<open>drawn\<close> how much of it is used.
\<close>

record 'fs world =
  fs :: 'fs
  draws :: "nat \<Rightarrow> nat"
  drawn :: nat
  clock_reads :: nat

text \<open>\<^verbatim>\<open>Path(p).read_text(encoding="utf-8")\<close>\<close>

definition read_text :: "'fs runtime \<Rightarrow> 'fs world \<Rightarrow> string \<Rightarrow> py_exception + string" where
  "read_text rt w p = fs_read_text rt (fs w) p"

text \<open>
  \<^verbatim>\<open>p.parent.mkdir(parents=True, exist_ok=True); p.write_text(text, encoding="utf-8")\<close>
\<close>

definition write_text ::
  "'fs runtime \<Rightarrow> 'fs world \<Rightarrow> string \<Rightarrow> string \<Rightarrow> (py_exception + unit) \<times> 'fs world" where
  "write_text rt w p t =
     (case fs_write_text rt (fs w) p t of
        (Some e, f) \<Rightarrow> (Inl e, w\<lparr>fs := f\<rparr>)
      | (None, f) \<Rightarrow> (Inr (), w\<lparr>fs := f\<rparr>))"

text \<open>
  \<^verbatim>\<open>random.randint(a, b)\<close>: an integer of the inclusive range, here the next raw draw
  reduced into the range; \<open>ValueError\<close> when the range is empty (the wording of its text is
  the library's and plays no part).
\<close>

definition randint :: "int \<Rightarrow> int \<Rightarrow> 'fs world \<Rightarrow> (py_exception + int) \<times> 'fs world" where
  "randint a b w =
     (if a > b then (Inl (Exc ValueError ''empty range for randrange()''), w)
      else (Inr (a + int (draws w (drawn w) mod nat (b - a + 1))), w\<lparr>drawn := drawn w + 1\<rparr>))"

text \<open>\<^verbatim>\<open>_tznow()\<close> reads the clock; the reading is known by its number.\<close>

definition tznow :: "'fs world \<Rightarrow> nat \<times> 'fs world" where
  "tznow w = (clock_reads w, w\<lparr>clock_reads := clock_reads w + 1\<rparr>)"

text \<open>\<^verbatim>\<open>xs[i % len(xs)]\<close>\<close>

definition cycle_get :: "'a list \<Rightarrow> nat \<Rightarrow> py_exception + 'a" where
  "cycle_get xs i =
     (if length xs = 0 then Inl (Exc ZeroDivisionError ''integer modulo by zero'')
      else Inr (xs ! (i mod length xs)))"

section \<open>The tools\<close>

subsection \<open>\<open>write_json\<close> and \<open>read_json\<close>\<close>

text \<open>
  \<^verbatim>\<open>
  def write_json(filepath: str, data: dict) -> str:
      try:
          text = json.dumps(data, indent=2, ensure_ascii=False)
          p = Path(filepath)
          p.parent.mkdir(parents=True, exist_ok=True)
          p.write_text(text, encoding="utf-8")
          return f"Successfully wrote JSON to '{filepath}' ({len(text)} characters)."
      except Exception as e:
          return f"Error writing JSON: {e}"
  \<close>
\<close>

definition write_error :: "py_exception \<Rightarrow> string" where
  "write_error e = ''Error writing JSON: '' @ exc_str e"

definition write_json :: "'fs runtime \<Rightarrow> string \<Rightarrow> anydict \<Rightarrow> 'fs world \<Rightarrow> string \<times> 'fs world" where
  "write_json rt filepath data w =
     (case json_dumps_pretty rt (PDict data) of
        Inl e \<Rightarrow> (write_error e, w)
      | Inr text \<Rightarrow>
          (case write_text rt w filepath text of
             (Inl e, w') \<Rightarrow> (write_error e, w')
           | (Inr u, w') \<Rightarrow>
               (''Successfully wrote JSON to '' @ quoted filepath @ '' (''
                  @ str_int (int (length text)) @ '' characters).'', w')))"

text \<open>
  \<^verbatim>\<open>
  def read_json(filepath: str) -> str:
      try:
          p = Path(filepath)
          data = json.loads(p.read_text(encoding="utf-8"))
          return json.dumps(data, indent=2, ensure_ascii=False)
      except FileNotFoundError:
          return f"Error: File '{filepath}' not found."
      except json.JSONDecodeError as e:
          return f"Error: Invalid JSON in file - {e}"
      except Exception as e:
          return f"Error reading JSON: {e}"
  \<close>
  The three \<^verbatim>\<open>except\<close> clauses, in their order:
\<close>

definition not_found_error :: "string \<Rightarrow> string" where
  "not_found_error filepath = ''Error: File '' @ quoted filepath @ '' not found.''"

definition invalid_json_error :: "py_exception \<Rightarrow> string" where
  "invalid_json_error e = ''Error: Invalid JSON in file - '' @ exc_str e"

definition read_error :: "py_exception \<Rightarrow> string" where
  "read_error e = ''Error reading JSON: '' @ exc_str e"

definition read_json_except :: "string \<Rightarrow> py_exception \<Rightarrow> string" where
  "read_json_except filepath e =
     (if exc_class_of e = FileNotFoundError then not_found_error filepath
      else if exc_class_of e = JSONDecodeError then invalid_json_error e
      else read_error e)"

definition read_json :: "'fs runtime \<Rightarrow> string \<Rightarrow> 'fs world \<Rightarrow> string" where
  "read_json rt filepath w =
     (case read_text rt w filepath of
        Inl e \<Rightarrow> read_json_except filepath e
      | Inr text \<Rightarrow>
          (case json_loads rt text of
             Inl e \<Rightarrow> read_json_except filepath e
           | Inr data \<Rightarrow>
               (case json_dumps_pretty rt data of
                  Inl e \<Rightarrow> read_json_except filepath e
                | Inr s \<Rightarrow> s)))"

subsection \<open>\<open>generate_sample_user\<close>\<close>

text \<open>
  One turn of the loop body, for the \<open>i\<close>-th first name (0-based):
  \<^verbatim>\<open>
      last   = last_names[i % len(last_names)]
      domain = domains[i % len(domains)]
      first_slug, last_slug = _slugify(first), _slugify(last)
      email = first_slug + "." + last_slug + "@" + domain.strip().lower()   # an f-string in the source
      users.append({
          "id": i + 1,
          "firstName": first,
          "lastName": last,
          "email": email,
          "username": f"{first_slug}{random.randint(100, 999)}",
          "age": random.randint(min_age, max_age),
          "registeredAt": (_tznow() - timedelta(days=random.randint(1, 365))).isoformat(),
      })
  \<close>
  The entries of the dict display are evaluated in their order, so the three random
  numbers are drawn for the username, the age and the registration day, in that order.
\<close>

definition make_user ::
  "'fs runtime \<Rightarrow> string list \<Rightarrow> string list \<Rightarrow> int \<Rightarrow> int \<Rightarrow> nat \<Rightarrow> string \<Rightarrow> 'fs world
     \<Rightarrow> (py_exception + pydict) \<times> 'fs world" where
  "make_user rt last_names domains min_age max_age i first w =
     (case cycle_get last_names i of
        Inl e \<Rightarrow> (Inl e, w)
      | Inr last_name \<Rightarrow>
     (case cycle_get domains i of
        Inl e \<Rightarrow> (Inl e, w)
      | Inr domain \<Rightarrow>
     (let first_slug = slugify first;
          last_slug = slugify last_name;
          email = first_slug @ ''.'' @ last_slug @ ''@'' @ py_lower (py_strip domain)
      in case randint 100 999 w of
        (Inl e, w1) \<Rightarrow> (Inl e, w1)
      | (Inr number, w1) \<Rightarrow>
     (case randint min_age max_age w1 of
        (Inl e, w2) \<Rightarrow> (Inl e, w2)
      | (Inr age, w2) \<Rightarrow>
     (case tznow w2 of (k, w3) \<Rightarrow>
     (case randint 1 365 w3 of
        (Inl e, w4) \<Rightarrow> (Inl e, w4)
      | (Inr days, w4) \<Rightarrow>
          (Inr [(''id'', PInt (int i + 1)),
                (''firstName'', PStr first),
                (''lastName'', PStr last_name),
                (''email'', PStr email),
                (''username'', PStr (first_slug @ str_int number)),
                (''age'', PInt age),
                (''registeredAt'', PStr (iso_days_ago rt k days))], w4)))))))"

text \<open>
  \<^verbatim>\<open>
      users = []
      for i, first in enumerate(first_names):
          ...
  \<close>
  The loop, from index \<open>i\<close> over the first names that are left.
\<close>

fun users_loop ::
  "'fs runtime \<Rightarrow> string list \<Rightarrow> string list \<Rightarrow> int \<Rightarrow> int \<Rightarrow> nat \<Rightarrow> string list \<Rightarrow> pydict list
     \<Rightarrow> 'fs world \<Rightarrow> (py_exception + pydict list) \<times> 'fs world" where
  "users_loop rt last_names domains min_age max_age i [] users w = (Inr users, w)"
| "users_loop rt last_names domains min_age max_age i (first # rest) users w =
     (case make_user rt last_names domains min_age max_age i first w of
        (Inl e, w') \<Rightarrow> (Inl e, w')
      | (Inr user, w') \<Rightarrow>
          users_loop rt last_names domains min_age max_age (Suc i) rest (users @ [user]) w')"

text \<open>
  \<^verbatim>\<open>
  def generate_sample_user(first_names, last_names, domains, min_age, max_age) -> dict:
      if not first_names:
          return {"error": "first_names list cannot be empty"}
      if not last_names:
          return {"error": "last_names list cannot be empty"}
      if not domains:
          return {"error": "domains list cannot be empty"}
      if min_age > max_age:
          return {"error": f"min_age ({min_age}) cannot be greater than max_age ({max_age})"}
      if min_age < 0 or max_age < 0:
          return {"error": "ages must be non-negative"}
      ...
      return {"users": users, "count": len(users)}
  \<close>
\<close>

definition error_dict :: "string \<Rightarrow> pydict" where
  "error_dict msg = [(''error'', PStr msg)]"

definition generate_sample_user ::
  "'fs runtime \<Rightarrow> string list \<Rightarrow> string list \<Rightarrow> string list \<Rightarrow> int \<Rightarrow> int \<Rightarrow> 'fs world
     \<Rightarrow> (py_exception + pydict) \<times> 'fs world" where
  "generate_sample_user rt first_names last_names domains min_age max_age w =
     (if first_names = [] then (Inr (error_dict ''first_names list cannot be empty''), w)
      else if last_names = [] then (Inr (error_dict ''last_names list cannot be empty''), w)
      else if domains = [] then (Inr (error_dict ''domains list cannot be empty''), w)
      else if min_age > max_age then
        (Inr (error_dict (''min_age ('' @ str_int min_age
                @ '') cannot be greater than max_age ('' @ str_int max_age @ '')'')), w)
      else if min_age < 0 \<or> max_age < 0 then (Inr (error_dict ''ages must be non-negative''), w)
      else
        (case users_loop rt last_names domains min_age max_age 0 first_names [] w of
           (Inl e, w') \<Rightarrow> (Inl e, w')
         | (Inr users, w') \<Rightarrow>
             (Inr [(''users'', PList (map dict_val users)), (''count'', PInt (int (length users)))], w')))"

subsection \<open>\<open>save_users\<close>\<close>

text \<open>\<^verbatim>\<open>if not xs: xs = default\<close>, for an argument that is \<open>None\<close> or a list.\<close>

definition or_default :: "string list option \<Rightarrow> string list \<Rightarrow> string list" where
  "or_default xs dflt = (case xs of None \<Rightarrow> dflt | Some ys \<Rightarrow> if ys = [] then dflt else ys)"

text \<open>\<^verbatim>\<open>d[k]\<close>: the value, or \<open>KeyError\<close>.\<close>

definition py_getitem :: "pydict \<Rightarrow> string \<Rightarrow> py_exception + pyval" where
  "py_getitem d k = (case map_of d k of None \<Rightarrow> Inl (Exc KeyError (quoted k)) | Some v \<Rightarrow> Inr v)"

text \<open>
  \<^verbatim>\<open>
  def save_users(filepath, first_names=None, last_names=None, domains=None,
                 min_age=18, max_age=65) -> str:
      try:
          if not first_names:
              first_names = ["John", "Jane", "Mike"]
          if not last_names:
              last_names = ["Smith", "Jones", "Brown"]
          if not domains:
              domains = ["example.com"]
          data = generate_sample_user.func(first_names=first_names, ...)
          if "error" in data:
              return f"Error generating users: {data['error']}"
          text = json.dumps(data, indent=2, ensure_ascii=False)
          p = Path(filepath)
          p.parent.mkdir(parents=True, exist_ok=True)
          p.write_text(text, encoding="utf-8")
          return f"Saved {data['count']} users to '{filepath}'."
      except Exception as e:
          return f"Error saving users: {e}"
  \<close>
\<close>

definition save_error :: "py_exception \<Rightarrow> string" where
  "save_error e = ''Error saving users: '' @ exc_str e"

definition generation_error :: "'fs runtime \<Rightarrow> pyval \<Rightarrow> string" where
  "generation_error rt reason = ''Error generating users: '' @ py_str rt reason"

definition save_users ::
  "'fs runtime \<Rightarrow> string \<Rightarrow> string list option \<Rightarrow> string list option \<Rightarrow> string list option
     \<Rightarrow> int \<Rightarrow> int \<Rightarrow> 'fs world \<Rightarrow> string \<times> 'fs world" where
  "save_users rt filepath first_names last_names domains min_age max_age w =
     (case generate_sample_user rt
             (or_default first_names [''John'', ''Jane'', ''Mike''])
             (or_default last_names [''Smith'', ''Jones'', ''Brown''])
             (or_default domains [''example.com''])
             min_age max_age w of
        (Inl e, w1) \<Rightarrow> (save_error e, w1)
      | (Inr data, w1) \<Rightarrow>
     (case map_of data ''error'' of
        Some reason \<Rightarrow> (generation_error rt reason, w1)
      | None \<Rightarrow>
     (case json_dumps_pretty rt (dict_val data) of
        Inl e \<Rightarrow> (save_error e, w1)
      | Inr text \<Rightarrow>
     (case write_text rt w1 filepath text of
        (Inl e, w2) \<Rightarrow> (save_error e, w2)
      | (Inr u, w2) \<Rightarrow>
     (case py_getitem data ''count'' of
        Inl e \<Rightarrow> (save_error e, w2)
      | Inr n \<Rightarrow> (''Saved '' @ py_str rt n @ '' users to '' @ quoted filepath @ ''.'', w2))))))"

subsection \<open>The registry\<close>

text \<open>
  \<^verbatim>\<open>
  TOOLS = [write_json, read_json, generate_sample_user, save_users]
  TOOLS_BY_NAME = {t.name: t for t in TOOLS}
  \<close>
  The decorator names a tool after its function. In a dict comprehension a later entry
  replaces an earlier one of the same key.
\<close>

datatype tool = WriteJson | ReadJson | GenerateSampleUser | SaveUsers

fun tool_name :: "tool \<Rightarrow> string" where
  "tool_name WriteJson = ''write_json''"
| "tool_name ReadJson = ''read_json''"
| "tool_name GenerateSampleUser = ''generate_sample_user''"
| "tool_name SaveUsers = ''save_users''"

definition TOOLS :: "tool list" where
  "TOOLS = [WriteJson, ReadJson, GenerateSampleUser, SaveUsers]"

definition TOOLS_BY_NAME :: "string \<Rightarrow> tool option" where
  "TOOLS_BY_NAME = map_of (rev (map (\<lambda>t. (tool_name t, t)) TOOLS))"

text \<open>
  A call of a tool's function with typed arguments, and the Python value it returns:
  three of the functions return a \<open>str\<close>, \<open>generate_sample_user\<close> returns a \<open>dict\<close>.
\<close>

datatype call =
    WriteJsonCall string anydict
  | ReadJsonCall string
  | GenerateSampleUserCall "string list" "string list" "string list" int int
  | SaveUsersCall string "string list option" "string list option" "string list option" int int

fun tool_func :: "'fs runtime \<Rightarrow> call \<Rightarrow> 'fs world \<Rightarrow> (py_exception + pyval) \<times> 'fs world" where
  "tool_func rt (WriteJsonCall filepath data) w =
     (case write_json rt filepath data w of (s, w') \<Rightarrow> (Inr (PStr s), w'))"
| "tool_func rt (ReadJsonCall filepath) w = (Inr (PStr (read_json rt filepath w)), w)"
| "tool_func rt (GenerateSampleUserCall first_names last_names domains min_age max_age) w =
     (case generate_sample_user rt first_names last_names domains min_age max_age w of
        (Inl e, w') \<Rightarrow> (Inl e, w')
      | (Inr d, w') \<Rightarrow> (Inr (dict_val d), w'))"
| "tool_func rt (SaveUsersCall filepath first_names last_names domains min_age max_age) w =
     (case save_users rt filepath first_names last_names domains min_age max_age w of
        (s, w') \<Rightarrow> (Inr (PStr s), w'))"

text \<open>
  \<^verbatim>\<open>tool.invoke(args)\<close>: the arguments are validated against the tool's signature, then
  the function runs; a validation failure is raised to the caller.
\<close>

fun bind_call :: "'fs runtime \<Rightarrow> tool \<Rightarrow> pydict \<Rightarrow> py_exception + call" where
  "bind_call rt WriteJson args =
     (case bind_write_json rt args of
        Inl e \<Rightarrow> Inl e
      | Inr (filepath, data) \<Rightarrow> Inr (WriteJsonCall filepath data))"
| "bind_call rt ReadJson args =
     (case bind_read_json rt args of
        Inl e \<Rightarrow> Inl e
      | Inr filepath \<Rightarrow> Inr (ReadJsonCall filepath))"
| "bind_call rt GenerateSampleUser args =
     (case bind_generate_sample_user rt args of
        Inl e \<Rightarrow> Inl e
      | Inr (first_names, last_names, domains, min_age, max_age) \<Rightarrow>
          Inr (GenerateSampleUserCall first_names last_names domains min_age max_age))"
| "bind_call rt SaveUsers args =
     (case bind_save_users rt args of
        Inl e \<Rightarrow> Inl e
      | Inr (filepath, first_names, last_names, domains, min_age, max_age) \<Rightarrow>
          Inr (SaveUsersCall filepath first_names last_names domains min_age max_age))"

definition invoke :: "'fs runtime \<Rightarrow> tool \<Rightarrow> pydict \<Rightarrow> 'fs world \<Rightarrow> (py_exception + pyval) \<times> 'fs world" where
  "invoke rt t args w =
     (case bind_call rt t args of
        Inl e \<Rightarrow> (Inl e, w)
      | Inr c \<Rightarrow> tool_func rt c w)"

section \<open>The conversation loop\<close>

text \<open>
  A tool call is a dict that the loop reads with \<^verbatim>\<open>tc.get(key, default)\<close>: a key is
  absent, or present with the value \<open>None\<close> (the \<open>id\<close> of a tool call is an optional
  string), or present with a value. A message content is a string or a list of content
  blocks. The model's reply carries a content and its tool calls.
\<close>

datatype 'a entry = KeyAbsent | KeyNone | KeyValue 'a

record tool_call =
  tc_name :: "string entry"
  tc_args :: "pydict entry"
  tc_id :: "string entry"

record ai_message =
  content :: pyval
  tool_calls :: "tool_call list"

datatype message =
    SystemMessage pyval
  | HumanMessage pyval
  | AIMessage ai_message
  | ToolMessage pyval string

text \<open>
  \<^verbatim>\<open>llm_with_tools.invoke(messages)\<close>: the hosted model, a function of the messages it is
  sent (within one run the list grows at every call, so a model that answers by turn is
  such a function too). It may raise.
\<close>

type_synonym llm = "message list \<Rightarrow> py_exception + ai_message"

definition SYSTEM_MESSAGE :: string where
  "SYSTEM_MESSAGE =
     ''You are DataGen, a helpful assistant that generates sample data for applications. ''
     @ ''To generate users, you need: first_names (list), last_names (list), domains (list), min_age, max_age. ''
     @ ''Fill these values yourself without asking if the user leaves them out. ''
     @ ''When asked to save users, prefer the save_users tool. If no filepath is provided, default to 'users.json'. ''
     @ ''If the user refers to 'those users' from a previous request, ask them to specify details again.''"

text \<open>
  \<^verbatim>\<open>
      name: str = tc.get("name", "")
      args: Dict[str, Any] = tc.get("args", {}) or {}
      call_id: str = tc.get("id", "")
  \<close>
  \<open>get\<close> gives the default for an absent key only: a key that is present with \<open>None\<close>
  gives \<open>None\<close> (here the option \<open>None\<close>). \<^verbatim>\<open>or {}\<close> turns \<open>None\<close> into the
  empty dict.
\<close>

definition call_name :: "tool_call \<Rightarrow> string option" where
  "call_name tc = (case tc_name tc of KeyAbsent \<Rightarrow> Some [] | KeyNone \<Rightarrow> None | KeyValue n \<Rightarrow> Some n)"

definition call_args :: "tool_call \<Rightarrow> pydict" where
  "call_args tc = (case tc_args tc of KeyAbsent \<Rightarrow> [] | KeyNone \<Rightarrow> [] | KeyValue a \<Rightarrow> a)"

definition call_id :: "tool_call \<Rightarrow> string option" where
  "call_id tc = (case tc_id tc of KeyAbsent \<Rightarrow> Some [] | KeyNone \<Rightarrow> None | KeyValue i \<Rightarrow> Some i)"

text \<open>\<^verbatim>\<open>f"{name}"\<close> for a name that is a string or \<open>None\<close>.\<close>

definition name_text :: "string option \<Rightarrow> string" where
  "name_text n = (case n of None \<Rightarrow> ''None'' | Some s \<Rightarrow> s)"

text \<open>\<^verbatim>\<open>TOOLS_BY_NAME.get(name)\<close>: no tool has the key \<open>None\<close>.\<close>

definition lookup_tool :: "string option \<Rightarrow> tool option" where
  "lookup_tool n = (case n of None \<Rightarrow> None | Some s \<Rightarrow> TOOLS_BY_NAME s)"

text \<open>
  \<^verbatim>\<open>ToolMessage(content=c, tool_call_id=i)\<close>: the message class validates its fields, and
  \<open>tool_call_id\<close> must be a string: with \<open>None\<close> the constructor raises a validation
  error (the wording of its text is the library's and plays no part).
\<close>

definition tool_message_error :: py_exception where
  "tool_message_error = Exc ValidationError ''1 validation error for ToolMessage''"

definition tool_message :: "pyval \<Rightarrow> string option \<Rightarrow> py_exception + message" where
  "tool_message c i = (case i of None \<Rightarrow> Inl tool_message_error | Some s \<Rightarrow> Inr (ToolMessage c s))"

text \<open>The error texts of the loop.\<close>

definition unknown_tool_error :: "string \<Rightarrow> string" where
  "unknown_tool_error name = ''Error: unknown tool '' @ quoted name"

definition tool_run_error :: "string \<Rightarrow> py_exception \<Rightarrow> string" where
  "tool_run_error name e = ''Error running tool '' @ quoted name @ '': '' @ exc_str e"

definition loop_limit_error :: string where
  "loop_limit_error = ''Error: exceeded tool-calling loop limit.''"

text \<open>
  \<^verbatim>\<open>
      try:
          result = tool.invoke(args) if hasattr(tool, "invoke") else tool.func(**args)
      except Exception as e:
          result = f"Error running tool '{name}': {e}"
  \<close>
  Every registered tool has \<open>invoke\<close>. The value of \<open>result\<close> after the \<^verbatim>\<open>try\<close>
  statement, and the world then:
\<close>

definition try_invoke ::
  "'fs runtime \<Rightarrow> tool \<Rightarrow> string option \<Rightarrow> pydict \<Rightarrow> 'fs world \<Rightarrow> pyval \<times> 'fs world" where
  "try_invoke rt t name args w =
     (case invoke rt t args w of
        (Inl e, w') \<Rightarrow> (PStr (tool_run_error (name_text name) e), w')
      | (Inr v, w') \<Rightarrow> (v, w'))"

text \<open>
  The body of \<^verbatim>\<open>for tc in tool_calls\<close>, on the message list and the world:
  \<^verbatim>\<open>
      tool = TOOLS_BY_NAME.get(name)
      if not tool:
          messages.append(ToolMessage(content=f"Error: unknown tool '{name}'", tool_call_id=call_id))
          continue
      try: ... except ...
      messages.append(ToolMessage(content=str(result), tool_call_id=call_id))
  \<close>
  Both \<open>ToolMessage\<close> constructions stand outside the \<^verbatim>\<open>try\<close>: what they raise leaves
  the loop and \<open>run_chat\<close>. The result is the exception raised, if any, with the message
  list and the world as they are then.
\<close>

definition exec_tool_call ::
  "'fs runtime \<Rightarrow> tool_call \<Rightarrow> message list \<times> 'fs world
     \<Rightarrow> py_exception option \<times> message list \<times> 'fs world" where
  "exec_tool_call rt tc st =
     (case st of (msgs, w) \<Rightarrow>
     (case lookup_tool (call_name tc) of
        None \<Rightarrow>
          (case tool_message (PStr (unknown_tool_error (name_text (call_name tc)))) (call_id tc) of
             Inl e \<Rightarrow> (Some e, msgs, w)
           | Inr m \<Rightarrow> (None, msgs @ [m], w))
      | Some t \<Rightarrow>
          (case try_invoke rt t (call_name tc) (call_args tc) w of (result, w') \<Rightarrow>
             (case tool_message (PStr (py_str rt result)) (call_id tc) of
                Inl e \<Rightarrow> (Some e, msgs, w')
              | Inr m \<Rightarrow> (None, msgs @ [m], w')))))"

fun exec_tool_calls ::
  "'fs runtime \<Rightarrow> tool_call list \<Rightarrow> message list \<times> 'fs world
     \<Rightarrow> py_exception option \<times> message list \<times> 'fs world" where
  "exec_tool_calls rt [] st = (None, st)"
| "exec_tool_calls rt (tc # tcs) st =
     (case exec_tool_call rt tc st of
        (Some e, st') \<Rightarrow> (Some e, st')
      | (None, st') \<Rightarrow> exec_tool_calls rt tcs st')"

text \<open>
  \<^verbatim>\<open>return ai.content if isinstance(ai.content, str) else json.dumps(ai.content)\<close>
\<close>

definition reply_text :: "'fs runtime \<Rightarrow> pyval \<Rightarrow> py_exception + string" where
  "reply_text rt c = (case c of PStr s \<Rightarrow> Inr s | _ \<Rightarrow> json_dumps rt c)"

text \<open>
  The state of a run: the local \<open>messages\<close>, the world, and, for stating the properties of
  the loop, the list of the model invocations so far, in order: the messages each was sent
  and the world at that moment.
\<close>

record 'fs chat_state =
  messages :: "message list"
  env_world :: "'fs world"
  invocations :: "(message list \<times> 'fs world) list"

text \<open>
  \<^verbatim>\<open>
      for _ in range(8):
          ai: AIMessage = llm_with_tools.invoke(messages)
          messages.append(ai)
          tool_calls = getattr(ai, "tool_calls", None) or []
          if not tool_calls:
              return ai.content if isinstance(ai.content, str) else json.dumps(ai.content)
          for tc in tool_calls:
              ...
      return "Error: exceeded tool-calling loop limit."
  \<close>
  \<open>chat_rounds rt model n\<close> is the loop with \<open>n\<close> rounds left. The result is what \<open>run_chat\<close>
  returns or raises, with the state at that point.
\<close>

fun chat_rounds ::
  "'fs runtime \<Rightarrow> llm \<Rightarrow> nat \<Rightarrow> 'fs chat_state \<Rightarrow> (py_exception + string) \<times> 'fs chat_state" where
  "chat_rounds rt model 0 st = (Inr loop_limit_error, st)"
| "chat_rounds rt model (Suc n) st =
     (let st1 = st\<lparr>invocations := invocations st @ [(messages st, env_world st)]\<rparr>
      in case model (messages st) of
        Inl e \<Rightarrow> (Inl e, st1)
      | Inr ai \<Rightarrow>
          (let st2 = st1\<lparr>messages := messages st @ [AIMessage ai]\<rparr>
           in if tool_calls ai = [] then (reply_text rt (content ai), st2)
              else (case exec_tool_calls rt (tool_calls ai) (messages st2, env_world st2) of
                      (Some e, msgs, w) \<Rightarrow> (Inl e, st2\<lparr>messages := msgs, env_world := w\<rparr>)
                    | (None, msgs, w) \<Rightarrow>
                        chat_rounds rt model n (st2\<lparr>messages := msgs, env_world := w\<rparr>))))"

text \<open>
  \<^verbatim>\<open>
  def run_chat(input_text: str, history_msgs: List[HumanMessage | AIMessage]) -> str:
      messages: List[Any] = [SystemMessage(SYSTEM_MESSAGE), *history_msgs,
                             HumanMessage(content=input_text)]
      ...
  \<close>
\<close>

definition initial_messages :: "string \<Rightarrow> message list \<Rightarrow> message list" where
  "initial_messages input_text history_msgs =
     [SystemMessage (PStr SYSTEM_MESSAGE)] @ history_msgs @ [HumanMessage (PStr input_text)]"

definition run_chat ::
  "'fs runtime \<Rightarrow> llm \<Rightarrow> string \<Rightarrow> message list \<Rightarrow> 'fs world
     \<Rightarrow> (py_exception + string) \<times> 'fs chat_state" where
  "run_chat rt model input_text history_msgs w =
     chat_rounds rt model 8
       \<lparr>messages = initial_messages input_text history_msgs, env_world = w, invocations = []\<rparr>"

section \<open>Stand-ins for evaluation\<close>

text \<open>
  To evaluate the program on concrete inputs, the parameters need concrete values. The
  stand-ins below are small and total: a JSON codec that knows three documents, a \<open>repr\<close>
  that tells the kind of a value, a clock that prints the day offset, binders that accept
  exactly the declared argument types, a file system that is a map from path strings to
  nodes, a world with no file, and scripted models.
\<close>

definition sample_json_text :: string where
  "sample_json_text = ''{'' @ [CHR 0x0A] @ ''  '' @ [CHR 0x22] @ ''a'' @ [CHR 0x22] @ '': 1'' @ [CHR 0x0A] @ ''}''"

text \<open>
  What \<^verbatim>\<open>json.dumps({1: "x"}, indent=2)\<close> prints: the integer key is written as the
  string \<open>"1"\<close>.
\<close>

definition int_key_json_text :: string where
  "int_key_json_text =
     ''{'' @ [CHR 0x0A] @ ''  '' @ [CHR 0x22] @ ''1'' @ [CHR 0x22] @ '': ''
       @ [CHR 0x22] @ ''x'' @ [CHR 0x22] @ [CHR 0x0A] @ ''}''"

definition sample_dumps :: "pyval \<Rightarrow> py_exception + string" where
  "sample_dumps v =
     (if v = PDict [] then Inr ''{}''
      else if v = PDict [(PStr ''a'', PInt 1)] then Inr sample_json_text
      else if v = PDict [(PInt 1, PStr ''x'')] \<or> v = PDict [(PStr ''1'', PStr ''x'')]
        then Inr int_key_json_text
      else Inl (Exc OtherError ''Object is not JSON serializable''))"

definition sample_loads :: "string \<Rightarrow> py_exception + pyval" where
  "sample_loads t =
     (if t = ''{}'' then Inr (PDict [])
      else if t = sample_json_text then Inr (PDict [(PStr ''a'', PInt 1)])
      else if t = int_key_json_text then Inr (PDict [(PStr ''1'', PStr ''x'')])
      else Inl (Exc JSONDecodeError ''Expecting value: line 1 column 1 (char 0)''))"

fun sample_repr :: "pyval \<Rightarrow> string" where
  "sample_repr PNone = ''None''"
| "sample_repr (PBool b) = (if b then ''True'' else ''False'')"
| "sample_repr (PInt i) = str_int i"
| "sample_repr (PStr t) = quoted t"
| "sample_repr (PList vs) = ''[...]''"
| "sample_repr (PDict kvs) = ''{...}''"

fun as_str :: "pyval option \<Rightarrow> string option" where
  "as_str (Some (PStr t)) = Some t"
| "as_str v = None"

fun as_int :: "pyval option \<Rightarrow> int option" where
  "as_int (Some (PInt i)) = Some i"
| "as_int v = None"

fun as_dict :: "pyval option \<Rightarrow> anydict option" where
  "as_dict (Some (PDict d)) = Some d"
| "as_dict v = None"

fun as_str_list :: "pyval option \<Rightarrow> string list option" where
  "as_str_list (Some (PList vs)) =
     (if list_all (\<lambda>v. as_str (Some v) \<noteq> None) vs
      then Some (map (\<lambda>v. case v of PStr t \<Rightarrow> t | _ \<Rightarrow> []) vs) else None)"
| "as_str_list v = None"

definition validation_error :: py_exception where
  "validation_error = Exc ValidationError ''1 validation error''"

definition sample_bind_write_json :: "pydict \<Rightarrow> py_exception + (string \<times> anydict)" where
  "sample_bind_write_json args =
     (case (as_str (map_of args ''filepath''), as_dict (map_of args ''data'')) of
        (Some p, Some d) \<Rightarrow> Inr (p, d)
      | _ \<Rightarrow> Inl validation_error)"

definition sample_bind_read_json :: "pydict \<Rightarrow> py_exception + string" where
  "sample_bind_read_json args =
     (case as_str (map_of args ''filepath'') of Some p \<Rightarrow> Inr p | None \<Rightarrow> Inl validation_error)"

definition sample_bind_generate ::
  "pydict \<Rightarrow> py_exception + (string list \<times> string list \<times> string list \<times> int \<times> int)" where
  "sample_bind_generate args =
     (case (as_str_list (map_of args ''first_names''), as_str_list (map_of args ''last_names''),
            as_str_list (map_of args ''domains''), as_int (map_of args ''min_age''),
            as_int (map_of args ''max_age'')) of
        (Some f, Some l, Some d, Some a, Some b) \<Rightarrow> Inr (f, l, d, a, b)
      | _ \<Rightarrow> Inl validation_error)"

definition sample_bind_save ::
  "pydict \<Rightarrow> py_exception +
     (string \<times> string list option \<times> string list option \<times> string list option \<times> int \<times> int)" where
  "sample_bind_save args =
     (case as_str (map_of args ''filepath'') of
        None \<Rightarrow> Inl validation_error
      | Some p \<Rightarrow>
          Inr (p, as_str_list (map_of args ''first_names''), as_str_list (map_of args ''last_names''),
               as_str_list (map_of args ''domains''),
               (case as_int (map_of args ''min_age'') of None \<Rightarrow> 18 | Some a \<Rightarrow> a),
               (case as_int (map_of args ''max_age'') of None \<Rightarrow> 65 | Some b \<Rightarrow> b)))"

text \<open>
  A small file system: what is at a path string. A device takes every write and drops
  it, and reads as the given text (\<open>/dev/null\<close> reads as the empty text). A path that
  runs through a regular file (\<open>out.json/x.json\<close> when \<open>out.json\<close> is a file) holds
  nothing and is not a missing file either: opening it raises \<open>NotADirectoryError\<close>.
\<close>

datatype node = Missing | Regular string | Undecodable string | Directory | Device string

type_synonym disk = "string \<Rightarrow> node"

definition is_regular :: "node \<Rightarrow> bool" where
  "is_regular n = (case n of Regular t \<Rightarrow> True | _ \<Rightarrow> False)"

definition below_file :: "disk \<Rightarrow> string \<Rightarrow> bool" where
  "below_file d p = list_ex (\<lambda>i. p ! i = CHR ''/'' \<and> is_regular (d (take i p))) [0..<length p]"

definition disk_read :: "disk \<Rightarrow> string \<Rightarrow> py_exception + string" where
  "disk_read d p =
     (if below_file d p then Inl (Exc NotADirectoryError (''[Errno 20] Not a directory: '' @ quoted p))
      else case d p of
        Missing \<Rightarrow> Inl (Exc FileNotFoundError (''[Errno 2] No such file or directory: '' @ quoted p))
      | Regular t \<Rightarrow> Inr t
      | Undecodable m \<Rightarrow> Inl (Exc UnicodeDecodeError m)
      | Directory \<Rightarrow> Inl (Exc IsADirectoryError (''[Errno 21] Is a directory: '' @ quoted p))
      | Device t \<Rightarrow> Inr t)"

definition disk_write :: "disk \<Rightarrow> string \<Rightarrow> string \<Rightarrow> py_exception option \<times> disk" where
  "disk_write d p t =
     (if below_file d p then (Some (Exc NotADirectoryError (''[Errno 20] Not a directory: '' @ quoted p)), d)
      else case d p of
        Directory \<Rightarrow> (Some (Exc IsADirectoryError (''[Errno 21] Is a directory: '' @ quoted p)), d)
      | Device r \<Rightarrow> (None, d)
      | _ \<Rightarrow> (None, d(p := Regular t)))"

definition sample_runtime :: "disk runtime" where
  "sample_runtime =
     \<lparr>json_dumps_pretty = sample_dumps,
      json_dumps = sample_dumps,
      json_loads = sample_loads,
      py_repr = sample_repr,
      iso_days_ago = (\<lambda>k d. ''now-'' @ str_int d @ ''d''),
      bind_write_json = sample_bind_write_json,
      bind_read_json = sample_bind_read_json,
      bind_generate_sample_user = sample_bind_generate,
      bind_save_users = sample_bind_save,
      fs_read_text = disk_read,
      fs_write_text = disk_write\<rparr>"

definition world_of :: "disk \<Rightarrow> disk world" where
  "world_of d = \<lparr>fs = d, draws = (\<lambda>k. 7 * k + 3), drawn = 0, clock_reads = 0\<rparr>"

definition empty_world :: "disk world" where
  "empty_world = world_of (\<lambda>p. Missing)"

text \<open>A model that asks for a tool at every turn and never answers in plain text.\<close>

definition tool_loop_model :: llm where
  "tool_loop_model msgs =
     Inr \<lparr>content = PStr [],
          tool_calls = [\<lparr>tc_name = KeyValue ''read_json'',
                         tc_args = KeyValue [(''filepath'', PStr ''users.json'')],
                         tc_id = KeyValue ''call_1''\<rparr>]\<rparr>"

text \<open>The same model, with a tool call whose \<open>id\<close> is \<open>None\<close>.\<close>

definition null_id_model :: llm where
  "null_id_model msgs =
     Inr \<lparr>content = PStr [],
          tool_calls = [\<lparr>tc_name = KeyValue ''read_json'',
                         tc_args = KeyValue [(''filepath'', PStr ''users.json'')],
                         tc_id = KeyNone\<rparr>]\<rparr>"

text \<open>A model that asks once for an unregistered tool, in a call whose \<open>id\<close> is \<open>None\<close>.\<close>

definition unknown_null_id_model :: llm where
  "unknown_null_id_model msgs =
     (if length msgs < 3
      then Inr \<lparr>content = PStr [],
                tool_calls = [\<lparr>tc_name = KeyValue ''delete_file'', tc_args = KeyAbsent,
                               tc_id = KeyNone\<rparr>]\<rparr>
      else Inr \<lparr>content = PStr ''Done.'', tool_calls = []\<rparr>)"

text \<open>
  A model that first asks for four tools at once (an unregistered one, \<open>read_json\<close> with
  an argument of the wrong type, \<open>generate_sample_user\<close>, \<open>write_json\<close>) and answers in
  plain text once the message list holds their results.
\<close>

definition scripted_calls :: "tool_call list" where
  "scripted_calls =
     [\<lparr>tc_name = KeyValue ''delete_file'', tc_args = KeyAbsent, tc_id = KeyValue ''c1''\<rparr>,
      \<lparr>tc_name = KeyValue ''read_json'', tc_args = KeyValue [(''filepath'', PInt 3)],
        tc_id = KeyValue ''c2''\<rparr>,
      \<lparr>tc_name = KeyValue ''generate_sample_user'',
        tc_args = KeyValue [(''first_names'', PList [PStr ''Ann'']),
                            (''last_names'', PList [PStr ''Lee'']),
                            (''domains'', PList [PStr ''Example.ORG'']),
                            (''min_age'', PInt 20), (''max_age'', PInt 30)],
        tc_id = KeyValue ''c3''\<rparr>,
      \<lparr>tc_name = KeyValue ''write_json'',
        tc_args = KeyValue [(''filepath'', PStr ''out.json''),
                            (''data'', PDict [(PStr ''a'', PInt 1)])],
        tc_id = KeyValue ''c4''\<rparr>]"

definition scripted_model :: llm where
  "scripted_model msgs =
     (if length msgs < 3 then Inr \<lparr>content = PStr [], tool_calls = scripted_calls\<rparr>
      else Inr \<lparr>content = PStr ''Done.'', tool_calls = []\<rparr>)"

section \<open>Predicates for stating the properties of a run\<close>

text \<open>\<^verbatim>\<open>isinstance(v, str)\<close>\<close>

definition is_str :: "pyval \<Rightarrow> bool" where
  "is_str v = (case v of PStr s \<Rightarrow> True | _ \<Rightarrow> False)"

text \<open>A message answers a tool call: it is a \<open>ToolMessage\<close> with the call's id.\<close>

definition answers :: "tool_call \<Rightarrow> message \<Rightarrow> bool" where
  "answers tc m = (case m of ToolMessage c i \<Rightarrow> call_id tc = Some i | _ \<Rightarrow> False)"

text \<open>A message is not a \<open>ToolMessage\<close>, or its content is a string.\<close>

definition tool_content_is_str :: "message \<Rightarrow> bool" where
  "tool_content_is_str m = (case m of ToolMessage c i \<Rightarrow> is_str c | _ \<Rightarrow> True)"

text \<open>
  One round of the loop leads from the invocation \<open>c\<close> (the messages sent and the world
  then) to the invocation \<open>c'\<close>: the model replies to \<open>c\<close> with tool calls, the reply is
  appended, every call is run in its turn, none raises, and the messages and the world
  after the last call are those of \<open>c'\<close>.
\<close>

definition round_step ::
  "'fs runtime \<Rightarrow> llm \<Rightarrow> message list \<times> 'fs world \<Rightarrow> message list \<times> 'fs world \<Rightarrow> bool" where
  "round_step rt model c c' =
     (\<exists>ai. model (fst c) = Inr ai \<and> tool_calls ai \<noteq> []
        \<and> exec_tool_calls rt (tool_calls ai) (fst c @ [AIMessage ai], snd c) = (None, c'))"

text \<open>
  The round of the last invocation \<open>c\<close> ends the run with the result \<open>res\<close> (what is
  returned or raised, the messages and the world at the end): the model raises; or it
  replies without tool calls and the reply's text is returned; or a tool call raises; or
  all calls are run and the loop is out of rounds.
\<close>

definition last_round ::
  "'fs runtime \<Rightarrow> llm \<Rightarrow> message list \<times> 'fs world
     \<Rightarrow> (py_exception + string) \<times> message list \<times> 'fs world \<Rightarrow> bool" where
  "last_round rt model c res =
     (case model (fst c) of
        Inl e \<Rightarrow> res = (Inl e, c)
      | Inr ai \<Rightarrow>
          if tool_calls ai = [] then res = (reply_text rt (content ai), fst c @ [AIMessage ai], snd c)
          else (case exec_tool_calls rt (tool_calls ai) (fst c @ [AIMessage ai], snd c) of
                  (Some e, st) \<Rightarrow> res = (Inl e, st)
                | (None, st) \<Rightarrow> res = (Inr loop_limit_error, st)))"

section \<open>Slugification: the code against the specification's wording\<close>

lemma of_char_lower: "(of_char (py_lower_char c) :: nat) =
  (let n = of_char c in if (65 \<le> n \<and> n \<le> 90) \<or> (192 \<le> n \<and> n \<le> 222 \<and> n \<noteq> 215) then n + 32 else n)"
  by (auto simp: py_lower_char_def Let_def)

lemma alnum_lower: "is_alnum (py_lower_char c) = is_slug_char (py_lower_char c)"
  by (auto simp: is_alnum_def is_slug_char_def of_char_lower Let_def)

lemma space_lower_nonslug: "is_space c \<Longrightarrow> \<not> is_slug_char (py_lower_char c)"
  by (auto simp: is_space_def is_slug_char_def of_char_lower Let_def)

lemma sub_eq_collapse:
  "\<forall>c \<in> set t. is_alnum c = is_slug_char c \<Longrightarrow> slug_re_sub t = collapse_runs t"
proof (induction t rule: collapse_runs.induct)
  case 1 show ?case by simp
next
  case (2 c) then show ?case by (simp add: separator_def)
next
  case (3 c d cs)
  then show ?case by (auto simp: separator_def)
qed

lemma strip_char_Cons: "strip_char c (c # s) = strip_char c s"
  by (simp add: strip_char_def)

lemma dropWhile_all: "\<forall>x \<in> set xs. P x \<Longrightarrow> dropWhile P xs = []"
  by (induction xs) auto

lemma strip_char_snoc: "strip_char c (s @ [c]) = strip_char c s"
proof (cases "\<forall>x \<in> set s. x = c")
  case True
  then have e: "dropWhile (\<lambda>x. x = c) s = []" by (rule dropWhile_all)
  show ?thesis by (simp add: strip_char_def dropWhile_append e)
next
  case False
  then show ?thesis by (auto simp: strip_char_def dropWhile_append)
qed

lemma sub_dropWhile_strip:
  "strip_char CHR ''.'' (slug_re_sub (dropWhile (\<lambda>x. \<not> is_slug_char x) t)) =
   strip_char CHR ''.'' (slug_re_sub t)"
  by (cases t) (simp_all add: strip_char_Cons)

lemma sub_leading:
  assumes "\<forall>c \<in> set ws. \<not> is_slug_char c"
  shows "strip_char CHR ''.'' (slug_re_sub (ws @ t)) = strip_char CHR ''.'' (slug_re_sub t)"
proof (cases ws)
  case Nil then show ?thesis by simp
next
  case (Cons w ws')
  with assms have "dropWhile (\<lambda>x. \<not> is_slug_char x) (ws' @ t) = dropWhile (\<lambda>x. \<not> is_slug_char x) t"
    by (simp add: dropWhile_append)
  with Cons assms show ?thesis
    by (simp add: strip_char_Cons sub_dropWhile_strip)
qed

lemma sub_trailing:
  assumes "\<forall>c \<in> set ws. \<not> is_slug_char c"
  shows "slug_re_sub (t @ ws) = slug_re_sub t \<or> slug_re_sub (t @ ws) = slug_re_sub t @ ''.''"
proof (induction t rule: slug_re_sub.induct)
  case 1
  show ?case
  proof (cases ws)
    case Nil then show ?thesis by simp
  next
    case (Cons w ws')
    with assms have e: "dropWhile (\<lambda>x. \<not> is_slug_char x) ws' = []" by (intro dropWhile_all) simp
    from Cons assms show ?thesis by (simp add: e)
  qed
next
  case (2 c cs)
  show ?case
  proof (cases "is_slug_char c")
    case True with 2 show ?thesis by auto
  next
    case False
    show ?thesis
    proof (cases "\<forall>x \<in> set cs. \<not> is_slug_char x")
      case True
      with assms have "dropWhile (\<lambda>x. \<not> is_slug_char x) (cs @ ws) = []"
        and "dropWhile (\<lambda>x. \<not> is_slug_char x) cs = []"
        using True assms by (auto intro!: dropWhile_all)
      then show ?thesis using False by (simp del: dropWhile_eq_Nil_conv)
    next
      case nall: False
      then have "dropWhile (\<lambda>x. \<not> is_slug_char x) (cs @ ws) = dropWhile (\<lambda>x. \<not> is_slug_char x) cs @ ws"
        by (auto simp: dropWhile_append)
      with False 2(2) show ?thesis by auto
    qed
  qed
qed


lemma sub_trailing_strip:
  assumes "\<forall>c \<in> set ws. \<not> is_slug_char c"
  shows "strip_char CHR ''.'' (slug_re_sub (t @ ws)) = strip_char CHR ''.'' (slug_re_sub t)"
  using sub_trailing [OF assms, of t] by (auto simp: strip_char_snoc)

lemma py_strip_decomp:
  "\<exists>ws1 ws2. s = ws1 @ py_strip s @ ws2 \<and> (\<forall>c \<in> set ws1. is_space c) \<and> (\<forall>c \<in> set ws2. is_space c)"
proof -
  let ?u = "dropWhile is_space s"
  have 1: "s = takeWhile is_space s @ ?u" by simp
  have "rev (takeWhile is_space (rev ?u) @ dropWhile is_space (rev ?u)) = ?u"
    by (simp only: takeWhile_dropWhile_id rev_rev_ident)
  then have 2: "?u = py_strip s @ rev (takeWhile is_space (rev ?u))"
    by (simp only: py_strip_def rev_append)
  have 3: "\<forall>c \<in> set (takeWhile is_space s). is_space c" by (auto dest: set_takeWhileD)
  have 4: "\<forall>c \<in> set (rev (takeWhile is_space (rev ?u))). is_space c" by (auto dest: set_takeWhileD)
  from 1 2 have "s = takeWhile is_space s @ py_strip s @ rev (takeWhile is_space (rev ?u))" by simp
  with 3 4 show ?thesis by blast
qed

lemma slug_strip_irrelevant:
  "strip_char CHR ''.'' (slug_re_sub (py_lower (py_strip s))) =
   strip_char CHR ''.'' (slug_re_sub (py_lower s))"
proof -
  obtain p where p: "p = py_strip s" by simp
  obtain ws1 ws2 where s: "s = ws1 @ p @ ws2"
    and w1: "\<forall>c \<in> set ws1. is_space c" and w2: "\<forall>c \<in> set ws2. is_space c"
    using py_strip_decomp [of s] unfolding p by blast
  have l1: "\<forall>c \<in> set (py_lower ws1). \<not> is_slug_char c"
    using w1 by (auto simp: py_lower_def space_lower_nonslug)
  have l2: "\<forall>c \<in> set (py_lower ws2). \<not> is_slug_char c"
    using w2 by (auto simp: py_lower_def space_lower_nonslug)
  have "py_lower s = py_lower ws1 @ (py_lower p @ py_lower ws2)"
    by (simp add: s py_lower_def)
  then have "strip_char CHR ''.'' (slug_re_sub (py_lower s)) =
      strip_char CHR ''.'' (slug_re_sub (py_lower p @ py_lower ws2))"
    by (simp only: sub_leading [OF l1])
  also have "\<dots> = strip_char CHR ''.'' (slug_re_sub (py_lower p))"
    by (rule sub_trailing_strip [OF l2])
  finally show ?thesis by (simp only: p)
qed

text \<open>
  Claim C9. For every input string, the slugification of the code is the function the
  specification describes: lowercase the string, collapse every maximal run of
  non-alphanumeric characters into one separator (the dot), trim the leading and trailing
  separators, and return the literal placeholder \<open>user\<close> when nothing is left. The
  \<open>strip()\<close> the code applies first does not show in the result: white space is
  non-alphanumeric, so it ends in a leading or trailing separator, which is trimmed.
\<close>

theorem slugify_refines_spec: "slugify s = spec_slugify s"
proof -
  have "\<forall>c \<in> set (py_lower s). is_alnum c = is_slug_char c"
    by (auto simp: py_lower_def alnum_lower)
  then have "slug_re_sub (py_lower s) = collapse_runs (py_lower s)"
    by (rule sub_eq_collapse)
  then have "strip_char CHR ''.'' (slug_re_sub (py_lower s)) =
      trim_separators (collapse_runs (map py_lower_char s))"
    by (simp add: trim_separators_def strip_char_def separator_def py_lower_def)
  then have "strip_char CHR ''.'' (slug_re_sub (py_lower (py_strip s))) =
      trim_separators (collapse_runs (map py_lower_char s))"
    by (simp only: slug_strip_irrelevant)
  then show ?thesis
    by (simp add: slugify_def spec_slugify_def placeholder_def Let_def)
qed

theorem slugify_refines_spec_witness:
  "slugify ''  John  O'Neil!! '' = ''john.o.neil'' \<and> spec_slugify ''  John  O'Neil!! '' = ''john.o.neil''
   \<and> slugify '' ?! '' = ''user''"
proof -
  have a: "spec_slugify ''  John  O'Neil!! '' = ''john.o.neil''" by code_simp
  have b: "spec_slugify '' ?! '' = ''user''" by code_simp
  show ?thesis
    using slugify_refines_spec [of "''  John  O'Neil!! ''"] slugify_refines_spec [of "'' ?! ''"] a b
    by simp
qed

section \<open>The argument checks of \<open>generate_sample_user\<close>\<close>

lemma sublist_mid: "sublist xs (ps @ xs @ ss)"
  by (rule sublist_appendI)

lemma min_age_error_names:
  "sublist ''min_age'' (''min_age ('' @ x @ '') cannot be greater than max_age ('' @ y @ '')'')"
  "sublist ''max_age'' (''min_age ('' @ x @ '') cannot be greater than max_age ('' @ y @ '')'')"
proof -
  have "''min_age ('' @ x @ '') cannot be greater than max_age ('' @ y @ '')''
      = [] @ ''min_age'' @ ('' ('' @ x @ '') cannot be greater than max_age ('' @ y @ '')'')"
    by simp
  then show "sublist ''min_age'' (''min_age ('' @ x @ '') cannot be greater than max_age ('' @ y @ '')'')"
    by (simp only: sublist_mid)
  have "''min_age ('' @ x @ '') cannot be greater than max_age ('' @ y @ '')''
      = (''min_age ('' @ x @ '') cannot be greater than '') @ ''max_age'' @ ('' ('' @ y @ '')'')"
    by simp
  then show "sublist ''max_age'' (''min_age ('' @ x @ '') cannot be greater than max_age ('' @ y @ '')'')"
    by (simp only: sublist_mid)
qed

text \<open>
  Claim C6, as the code has it. \<open>generate_sample_user\<close> checks its arguments in the fixed
  order: empty \<open>first_names\<close>, empty \<open>last_names\<close>, empty \<open>domains\<close>,
  \<open>min_age > max_age\<close>, a negative age. The first check that fails returns a single
  \<open>{error}\<close> dict, whatever the later arguments are, and leaves the world as it was (no
  random number is drawn). The messages of the first four checks name the parameter at
  fault (\<open>first_names\<close>, \<open>last_names\<close>, \<open>domains\<close>, and both \<open>min_age\<close> and
  \<open>max_age\<close>); the message of the fifth is the fixed text \<open>ages must be non-negative\<close>.
\<close>

theorem generate_validation_order:
  "(fn = [] \<longrightarrow>
      generate_sample_user rt fn ln dm a b w = (Inr (error_dict ''first_names list cannot be empty''), w))
   \<and> (fn \<noteq> [] \<and> ln = [] \<longrightarrow>
      generate_sample_user rt fn ln dm a b w = (Inr (error_dict ''last_names list cannot be empty''), w))
   \<and> (fn \<noteq> [] \<and> ln \<noteq> [] \<and> dm = [] \<longrightarrow>
      generate_sample_user rt fn ln dm a b w = (Inr (error_dict ''domains list cannot be empty''), w))
   \<and> (fn \<noteq> [] \<and> ln \<noteq> [] \<and> dm \<noteq> [] \<and> a > b \<longrightarrow>
      generate_sample_user rt fn ln dm a b w =
        (Inr (error_dict (''min_age ('' @ str_int a @ '') cannot be greater than max_age (''
                @ str_int b @ '')'')), w))
   \<and> (fn \<noteq> [] \<and> ln \<noteq> [] \<and> dm \<noteq> [] \<and> a \<le> b \<and> (a < 0 \<or> b < 0) \<longrightarrow>
      generate_sample_user rt fn ln dm a b w = (Inr (error_dict ''ages must be non-negative''), w))
   \<and> sublist ''first_names'' ''first_names list cannot be empty''
   \<and> sublist ''last_names'' ''last_names list cannot be empty''
   \<and> sublist ''domains'' ''domains list cannot be empty''
   \<and> sublist ''min_age'' (''min_age ('' @ str_int a @ '') cannot be greater than max_age (''
                @ str_int b @ '')'')
   \<and> sublist ''max_age'' (''min_age ('' @ str_int a @ '') cannot be greater than max_age (''
                @ str_int b @ '')'')"
proof -
  have 1: "sublist ''first_names'' ''first_names list cannot be empty''" by code_simp
  have 2: "sublist ''last_names'' ''last_names list cannot be empty''" by code_simp
  have 3: "sublist ''domains'' ''domains list cannot be empty''" by code_simp
  show ?thesis
    using 1 2 3 min_age_error_names [of "str_int a" "str_int b"]
    by (simp add: generate_sample_user_def)
qed

theorem generate_validation_order_witness:
  "generate_sample_user sample_runtime [] [] [] 7 (- 1) empty_world
     = (Inr (error_dict ''first_names list cannot be empty''), empty_world)
   \<and> generate_sample_user sample_runtime [''A''] [] [] 7 (- 1) empty_world
     = (Inr (error_dict ''last_names list cannot be empty''), empty_world)
   \<and> generate_sample_user sample_runtime [''A''] [''B''] [] 7 (- 1) empty_world
     = (Inr (error_dict ''domains list cannot be empty''), empty_world)
   \<and> generate_sample_user sample_runtime [''A''] [''B''] [''c.com''] 7 (- 1) empty_world
     = (Inr (error_dict ''min_age (7) cannot be greater than max_age (-1)''), empty_world)
   \<and> generate_sample_user sample_runtime [''A''] [''B''] [''c.com''] (- 1) 5 empty_world
     = (Inr (error_dict ''ages must be non-negative''), empty_world)"
proof -
  have s7: "str_int 7 = ''7''" by code_simp
  have s1: "str_int (- 1) = ''-1''" by code_simp
  show ?thesis
    using generate_validation_order [of "[]" sample_runtime "[]" "[]" 7 "- 1" empty_world]
      generate_validation_order [of "[''A'']" sample_runtime "[]" "[]" 7 "- 1" empty_world]
      generate_validation_order [of "[''A'']" sample_runtime "[''B'']" "[]" 7 "- 1" empty_world]
      generate_validation_order [of "[''A'']" sample_runtime "[''B'']" "[''c.com'']" 7 "- 1" empty_world]
      generate_validation_order [of "[''A'']" sample_runtime "[''B'']" "[''c.com'']" "- 1" 5 empty_world]
    by (simp add: s7 s1)
qed

text \<open>
  Claim C6 as it was stated has every message name the parameter at fault. With
  \<open>min_age = -1\<close> and \<open>max_age = 5\<close> the fifth check fails, and its message names
  neither \<open>min_age\<close> nor \<open>max_age\<close>.
\<close>

theorem generate_negative_age_message:
  "fst (generate_sample_user sample_runtime [''A''] [''B''] [''c.com''] (- 1) 5 empty_world)
     = Inr (error_dict ''ages must be non-negative'')
   \<and> \<not> sublist ''min_age'' ''ages must be non-negative''
   \<and> \<not> sublist ''max_age'' ''ages must be non-negative''"
proof -
  have 1: "\<not> sublist ''min_age'' ''ages must be non-negative''" by code_simp
  have 2: "\<not> sublist ''max_age'' ''ages must be non-negative''" by code_simp
  show ?thesis using 1 2 by (simp add: generate_sample_user_def)
qed

section \<open>The file tools\<close>

lemma not_found_contains: "sublist ''not found'' (not_found_error p)"
proof -
  have "not_found_error p = (''Error: File '' @ quoted p @ '' '') @ ''not found'' @ ''.''"
    by (simp add: not_found_error_def)
  then show ?thesis by (simp only: sublist_mid)
qed

lemma invalid_json_contains: "sublist ''Invalid JSON'' (invalid_json_error e)"
proof -
  have "invalid_json_error e = ''Error: '' @ ''Invalid JSON'' @ ('' in file - '' @ exc_str e)"
    by (simp add: invalid_json_error_def)
  then show ?thesis by (simp only: sublist_mid)
qed

lemma read_errors_distinct:
  "not_found_error p \<noteq> invalid_json_error e1"
  "not_found_error p \<noteq> read_error e2"
  "invalid_json_error e1 \<noteq> read_error e2"
  by (simp_all add: not_found_error_def invalid_json_error_def read_error_def)

text \<open>
  Claim C8, as the code has it. \<open>read_json\<close> tells its failures apart by the class of
  the exception that reading or parsing raises. When opening the path raises
  \<open>FileNotFoundError\<close> (the file is missing from an existing directory) it returns a text
  that contains \<open>not found\<close>. When the file's text is read and \<open>json.loads\<close> raises
  \<open>JSONDecodeError\<close> on it, it returns a text that contains \<open>Invalid JSON\<close>. Every
  other exception, while reading or while parsing, gives a third text,
  \<open>Error reading JSON: ...\<close>: a path that runs through a regular file, bytes that are
  not UTF-8, a document nested too deep for the parser. When nothing is raised it returns
  the parsed value printed again. The three error texts differ from one another, whatever
  the path and the exceptions are. \<open>read_json\<close> is a total function into strings: every
  exception of its body is a branch that returns a text.
\<close>

theorem read_json_failure_modes:
  "(fs_read_text rt (fs w) p = Inl e \<and> exc_class_of e = FileNotFoundError \<longrightarrow>
        read_json rt p w = not_found_error p)
   \<and> (fs_read_text rt (fs w) p = Inr t \<and> json_loads rt t = Inl e
        \<and> exc_class_of e = JSONDecodeError \<longrightarrow>
        read_json rt p w = invalid_json_error e)
   \<and> (fs_read_text rt (fs w) p = Inl e \<and> exc_class_of e \<noteq> FileNotFoundError
        \<and> exc_class_of e \<noteq> JSONDecodeError \<longrightarrow>
        read_json rt p w = read_error e)
   \<and> (fs_read_text rt (fs w) p = Inr t \<and> json_loads rt t = Inl e
        \<and> exc_class_of e \<noteq> FileNotFoundError \<and> exc_class_of e \<noteq> JSONDecodeError \<longrightarrow>
        read_json rt p w = read_error e)
   \<and> (fs_read_text rt (fs w) p = Inr t \<and> json_loads rt t = Inr v
        \<and> json_dumps_pretty rt v = Inr s \<longrightarrow>
        read_json rt p w = s)
   \<and> sublist ''not found'' (not_found_error p)
   \<and> sublist ''Invalid JSON'' (invalid_json_error e)
   \<and> not_found_error p \<noteq> invalid_json_error e1
   \<and> not_found_error p \<noteq> read_error e2
   \<and> invalid_json_error e1 \<noteq> read_error e2"
  using not_found_contains [of p] invalid_json_contains [of e] read_errors_distinct
  by (simp add: read_json_def read_text_def read_json_except_def)

theorem read_json_failure_modes_witness:
  "read_json sample_runtime ''nothing.json'' empty_world = not_found_error ''nothing.json''
   \<and> read_json sample_runtime ''bad.json'' (world_of ((\<lambda>p. Missing)(''bad.json'' := Regular ''{broken'')))
      = ''Error: Invalid JSON in file - Expecting value: line 1 column 1 (char 0)''
   \<and> read_json sample_runtime ''dir'' (world_of ((\<lambda>p. Missing)(''dir'' := Directory)))
      = ''Error reading JSON: [Errno 21] Is a directory: '' @ quoted ''dir''
   \<and> read_json sample_runtime ''ok.json'' (world_of ((\<lambda>p. Missing)(''ok.json'' := Regular ''{}'')))
      = ''{}''"
proof -
  let ?bad = "world_of ((\<lambda>p. Missing)(''bad.json'' := Regular ''{broken''))"
  let ?dir = "world_of ((\<lambda>p. Missing)(''dir'' := Directory))"
  let ?ok = "world_of ((\<lambda>p. Missing)(''ok.json'' := Regular ''{}''))"
  have r1: "fs_read_text sample_runtime (fs empty_world) ''nothing.json''
      = Inl (Exc FileNotFoundError (''[Errno 2] No such file or directory: '' @ quoted ''nothing.json''))"
    by code_simp
  have r2: "fs_read_text sample_runtime (fs ?bad) ''bad.json'' = Inr ''{broken''" by code_simp
  have l2: "json_loads sample_runtime ''{broken''
      = Inl (Exc JSONDecodeError ''Expecting value: line 1 column 1 (char 0)'')"
    by code_simp
  have r3: "fs_read_text sample_runtime (fs ?dir) ''dir''
      = Inl (Exc IsADirectoryError (''[Errno 21] Is a directory: '' @ quoted ''dir''))"
    by code_simp
  have r4: "fs_read_text sample_runtime (fs ?ok) ''ok.json'' = Inr ''{}''" by code_simp
  have l4: "json_loads sample_runtime ''{}'' = Inr (PDict [])" by code_simp
  have d4: "json_dumps_pretty sample_runtime (PDict []) = Inr ''{}''" by code_simp
  have 1: "read_json sample_runtime ''nothing.json'' empty_world = not_found_error ''nothing.json''"
    using read_json_failure_modes [where rt = sample_runtime and w = empty_world
        and p = "''nothing.json''"
        and e = "Exc FileNotFoundError (''[Errno 2] No such file or directory: '' @ quoted ''nothing.json'')"]
      r1 by simp
  have 2: "read_json sample_runtime ''bad.json'' ?bad
      = ''Error: Invalid JSON in file - Expecting value: line 1 column 1 (char 0)''"
    using read_json_failure_modes [where rt = sample_runtime and w = ?bad and p = "''bad.json''"
        and t = "''{broken''"
        and e = "Exc JSONDecodeError ''Expecting value: line 1 column 1 (char 0)''"]
      r2 l2 by (simp add: invalid_json_error_def)
  have 3: "read_json sample_runtime ''dir'' ?dir
      = ''Error reading JSON: [Errno 21] Is a directory: '' @ quoted ''dir''"
    using read_json_failure_modes [where rt = sample_runtime and w = ?dir and p = "''dir''"
        and e = "Exc IsADirectoryError (''[Errno 21] Is a directory: '' @ quoted ''dir'')"]
      r3 by (simp add: read_error_def)
  have 4: "read_json sample_runtime ''ok.json'' ?ok = ''{}''"
    using read_json_failure_modes [where rt = sample_runtime and w = ?ok and p = "''ok.json''"
        and t = "''{}''" and v = "PDict []" and s = "''{}''"]
      r4 l4 d4 by simp
  from 1 2 3 4 show ?thesis by (intro conjI)
qed

text \<open>
  Claim C8 as it was stated has every path that does not exist answered with
  \<open>not found\<close>, and every existing file whose content is not valid JSON answered with
  \<open>Invalid JSON\<close>. Neither holds. Nothing exists at \<open>out.json/x.json\<close> when
  \<open>out.json\<close> is a regular file, and opening it raises \<open>NotADirectoryError\<close>; a file
  whose bytes are not UTF-8 exists and is not valid JSON, and reading it raises
  \<open>UnicodeDecodeError\<close>. The last \<^verbatim>\<open>except\<close> clause turns both into the text of the
  other failures.
\<close>

theorem read_json_undecodable_file:
  "read_json sample_runtime ''photo.jpg''
     (world_of ((\<lambda>p. Missing)
        (''photo.jpg'' := Undecodable (quoted ''utf-8''
           @ '' codec can't decode byte 0xff in position 0: invalid start byte''))))
     = ''Error reading JSON: '' @ quoted ''utf-8''
         @ '' codec can't decode byte 0xff in position 0: invalid start byte''
   \<and> \<not> sublist ''Invalid JSON''
         (''Error reading JSON: '' @ quoted ''utf-8''
            @ '' codec can't decode byte 0xff in position 0: invalid start byte'')
   \<and> read_json sample_runtime ''out.json/x.json''
         (world_of ((\<lambda>p. Missing)(''out.json'' := Regular ''{}'')))
     = ''Error reading JSON: [Errno 20] Not a directory: '' @ quoted ''out.json/x.json''
   \<and> \<not> sublist ''not found''
         (''Error reading JSON: [Errno 20] Not a directory: '' @ quoted ''out.json/x.json'')"
  by code_simp




section \<open>The records of \<open>generate_sample_user\<close>\<close>

lemma randint_in_range:
  assumes "a \<le> b"
  shows "\<exists>v. randint a b w = (Inr v, w\<lparr>drawn := drawn w + 1\<rparr>) \<and> a \<le> v \<and> v \<le> b"
proof -
  let ?n = "nat (b - a + 1)"
  let ?r = "draws w (drawn w) mod ?n"
  from assms have "0 < ?n" by simp
  then have "?r < ?n" by (rule mod_less_divisor)
  with assms have "a + int ?r \<le> b" by linarith
  with assms show ?thesis by (simp add: randint_def)
qed

lemma set_strip_char: "set (strip_char c t) \<subseteq> set t"
proof -
  have "set (strip_char c t) \<subseteq> set (rev (dropWhile (\<lambda>x. x = c) t))"
    unfolding strip_char_def set_rev by (auto dest: set_dropWhileD)
  also have "\<dots> \<subseteq> set t" by (auto dest: set_dropWhileD)
  finally show ?thesis .
qed

lemma set_slug_re_sub: "set (slug_re_sub t) \<subseteq> {c. is_slug_char c \<or> c = CHR ''.''}"
  by (induction t rule: slug_re_sub.induct) auto

lemma set_slugify: "set (slugify s) \<subseteq> {c. is_slug_char c \<or> c = CHR ''.''}"
proof -
  have "set ''user'' \<subseteq> {c. is_slug_char c \<or> c = CHR ''.''}"
    by (simp add: is_slug_char_def)
  moreover have "set (strip_char CHR ''.'' (slug_re_sub (py_lower (py_strip s))))
      \<subseteq> {c. is_slug_char c \<or> c = CHR ''.''}"
    using set_strip_char set_slug_re_sub by (rule subset_trans)
  ultimately show ?thesis by (simp add: slugify_def Let_def)
qed

lemma no_at_in_slug: "CHR ''@'' \<notin> set (slugify s)"
proof
  assume "CHR ''@'' \<in> set (slugify s)"
  with set_slugify have "is_slug_char CHR ''@'' \<or> CHR ''@'' = CHR ''.''" by blast
  then show False by (simp add: is_slug_char_def)
qed

lemma make_user_result:
  assumes "last_names \<noteq> []" and "domains \<noteq> []" and "min_age \<le> max_age"
  shows "\<exists>number age k days w'.
     make_user rt last_names domains min_age max_age i first w =
       (Inr [(''id'', PInt (int i + 1)),
             (''firstName'', PStr first),
             (''lastName'', PStr (last_names ! (i mod length last_names))),
             (''email'', PStr (slugify first @ ''.'' @ slugify (last_names ! (i mod length last_names))
                @ ''@'' @ py_lower (py_strip (domains ! (i mod length domains))))),
             (''username'', PStr (slugify first @ str_int number)),
             (''age'', PInt age),
             (''registeredAt'', PStr (iso_days_ago rt k days))], w')
     \<and> min_age \<le> age \<and> age \<le> max_age"
proof -
  obtain number w1 where n: "randint 100 999 w = (Inr number, w1)"
    using randint_in_range [of 100 999 w] by auto
  obtain age w2 where a: "randint min_age max_age w1 = (Inr age, w2)"
      and ab: "min_age \<le> age" "age \<le> max_age"
    using randint_in_range [OF assms(3), of w1] by auto
  obtain k w3 where t: "tznow w2 = (k, w3)"
    by (simp add: tznow_def)
  obtain days w4 where d: "randint 1 365 w3 = (Inr days, w4)"
    using randint_in_range [of 1 365 w3] by auto
  have "make_user rt last_names domains min_age max_age i first w =
       (Inr [(''id'', PInt (int i + 1)),
             (''firstName'', PStr first),
             (''lastName'', PStr (last_names ! (i mod length last_names))),
             (''email'', PStr (slugify first @ ''.'' @ slugify (last_names ! (i mod length last_names))
                @ ''@'' @ py_lower (py_strip (domains ! (i mod length domains))))),
             (''username'', PStr (slugify first @ str_int number)),
             (''age'', PInt age),
             (''registeredAt'', PStr (iso_days_ago rt k days))], w4)"
    using assms(1,2) unfolding make_user_def cycle_get_def Let_def
    by (simp add: n a t d)
  with ab show ?thesis by blast
qed

lemma users_loop_result:
  assumes "last_names \<noteq> []" and "domains \<noteq> []" and "min_age \<le> max_age"
  shows "\<exists>new w'.
     users_loop rt last_names domains min_age max_age i rest users w = (Inr (users @ new), w')
     \<and> length new = length rest
     \<and> (\<forall>j < length rest. \<exists>number age k days.
           new ! j =
             [(''id'', PInt (int (i + j) + 1)),
              (''firstName'', PStr (rest ! j)),
              (''lastName'', PStr (last_names ! ((i + j) mod length last_names))),
              (''email'', PStr (slugify (rest ! j) @ ''.''
                 @ slugify (last_names ! ((i + j) mod length last_names))
                 @ ''@'' @ py_lower (py_strip (domains ! ((i + j) mod length domains))))),
              (''username'', PStr (slugify (rest ! j) @ str_int number)),
              (''age'', PInt age),
              (''registeredAt'', PStr (iso_days_ago rt k days))]
           \<and> min_age \<le> age \<and> age \<le> max_age)"
proof (induction rest arbitrary: i users w)
  case Nil
  show ?case by simp
next
  case (Cons first rest)
  obtain number age k days w1 where
    m: "make_user rt last_names domains min_age max_age i first w =
       (Inr [(''id'', PInt (int i + 1)),
             (''firstName'', PStr first),
             (''lastName'', PStr (last_names ! (i mod length last_names))),
             (''email'', PStr (slugify first @ ''.'' @ slugify (last_names ! (i mod length last_names))
                @ ''@'' @ py_lower (py_strip (domains ! (i mod length domains))))),
             (''username'', PStr (slugify first @ str_int number)),
             (''age'', PInt age),
             (''registeredAt'', PStr (iso_days_ago rt k days))], w1)"
    and ab: "min_age \<le> age" "age \<le> max_age"
    using make_user_result [OF assms, of rt i first w] by blast
  define u where "u = [(''id'', PInt (int i + 1)),
             (''firstName'', PStr first),
             (''lastName'', PStr (last_names ! (i mod length last_names))),
             (''email'', PStr (slugify first @ ''.'' @ slugify (last_names ! (i mod length last_names))
                @ ''@'' @ py_lower (py_strip (domains ! (i mod length domains))))),
             (''username'', PStr (slugify first @ str_int number)),
             (''age'', PInt age),
             (''registeredAt'', PStr (iso_days_ago rt k days))]"
  from Cons.IH [of "Suc i" "users @ [u]" w1]
  obtain new w' where
    l: "users_loop rt last_names domains min_age max_age (Suc i) rest (users @ [u]) w1
          = (Inr ((users @ [u]) @ new), w')"
    and len: "length new = length rest"
    and each: "\<forall>j < length rest. \<exists>number age k days.
           new ! j =
             [(''id'', PInt (int (Suc i + j) + 1)),
              (''firstName'', PStr (rest ! j)),
              (''lastName'', PStr (last_names ! ((Suc i + j) mod length last_names))),
              (''email'', PStr (slugify (rest ! j) @ ''.''
                 @ slugify (last_names ! ((Suc i + j) mod length last_names))
                 @ ''@'' @ py_lower (py_strip (domains ! ((Suc i + j) mod length domains))))),
              (''username'', PStr (slugify (rest ! j) @ str_int number)),
              (''age'', PInt age),
              (''registeredAt'', PStr (iso_days_ago rt k days))]
           \<and> min_age \<le> age \<and> age \<le> max_age"
    by blast
  have run: "users_loop rt last_names domains min_age max_age i (first # rest) users w
      = (Inr (users @ (u # new)), w')"
    using m l by (simp add: u_def)
  have "\<exists>number age k days.
           (u # new) ! j =
             [(''id'', PInt (int (i + j) + 1)),
              (''firstName'', PStr ((first # rest) ! j)),
              (''lastName'', PStr (last_names ! ((i + j) mod length last_names))),
              (''email'', PStr (slugify ((first # rest) ! j) @ ''.''
                 @ slugify (last_names ! ((i + j) mod length last_names))
                 @ ''@'' @ py_lower (py_strip (domains ! ((i + j) mod length domains))))),
              (''username'', PStr (slugify ((first # rest) ! j) @ str_int number)),
              (''age'', PInt age),
              (''registeredAt'', PStr (iso_days_ago rt k days))]
           \<and> min_age \<le> age \<and> age \<le> max_age"
    if j: "j < length (first # rest)" for j
  proof (cases j)
    case 0
    with ab show ?thesis by (auto simp: u_def)
  next
    case (Suc j')
    with j have "j' < length rest" by simp
    with each Suc show ?thesis by simp
  qed
  with run len show ?case by auto
qed

text \<open>
  Claim C5. For every valid input (the three lists non-empty, \<open>0 \<le> min_age \<le> max_age\<close>)
  \<open>generate_sample_user\<close> returns a \<open>{users, count}\<close> dict and does not raise. \<open>count\<close> is
  the number of first names and there is one record per first name. The \<open>i\<close>-th record
  (0-based) has \<open>id = i + 1\<close>, the \<open>i\<close>-th first name, the last name at index
  \<open>i mod len(last_names)\<close>, an email that is the two slugs joined by a dot, then \<open>@\<close>,
  then the domain at index \<open>i mod len(domains)\<close>, stripped and lowercased (the part
  before that \<open>@\<close> holds no \<open>@\<close>, so the domain part of the email is that domain), and
  an age in the inclusive range from \<open>min_age\<close> to \<open>max_age\<close>.
\<close>

theorem generate_sample_user_records:
  assumes "first_names \<noteq> []" and "last_names \<noteq> []" and "domains \<noteq> []"
    and "0 \<le> min_age" and "min_age \<le> max_age"
  shows "\<exists>users w'.
     generate_sample_user rt first_names last_names domains min_age max_age w =
       (Inr [(''users'', PList (map dict_val users)), (''count'', PInt (int (length first_names)))], w')
     \<and> length users = length first_names
     \<and> (\<forall>i < length first_names.
           map_of (users ! i) ''id'' = Some (PInt (int i + 1))
         \<and> map_of (users ! i) ''firstName'' = Some (PStr (first_names ! i))
         \<and> map_of (users ! i) ''lastName'' = Some (PStr (last_names ! (i mod length last_names)))
         \<and> map_of (users ! i) ''email'' =
             Some (PStr (slugify (first_names ! i) @ ''.''
                @ slugify (last_names ! (i mod length last_names))
                @ ''@'' @ py_lower (py_strip (domains ! (i mod length domains)))))
         \<and> CHR ''@'' \<notin> set (slugify (first_names ! i) @ ''.''
                @ slugify (last_names ! (i mod length last_names)))
         \<and> (\<exists>age. map_of (users ! i) ''age'' = Some (PInt age) \<and> min_age \<le> age \<and> age \<le> max_age))"
proof -
  from users_loop_result [OF assms(2,3,5), of rt 0 first_names "[]" w]
  obtain users w' where
    l: "users_loop rt last_names domains min_age max_age 0 first_names [] w = (Inr users, w')"
    and len: "length users = length first_names"
    and each: "\<forall>j < length first_names. \<exists>number age k days.
           users ! j =
             [(''id'', PInt (int j + 1)),
              (''firstName'', PStr (first_names ! j)),
              (''lastName'', PStr (last_names ! (j mod length last_names))),
              (''email'', PStr (slugify (first_names ! j) @ ''.''
                 @ slugify (last_names ! (j mod length last_names))
                 @ ''@'' @ py_lower (py_strip (domains ! (j mod length domains))))),
              (''username'', PStr (slugify (first_names ! j) @ str_int number)),
              (''age'', PInt age),
              (''registeredAt'', PStr (iso_days_ago rt k days))]
           \<and> min_age \<le> age \<and> age \<le> max_age"
    by auto
  have g: "generate_sample_user rt first_names last_names domains min_age max_age w =
       (Inr [(''users'', PList (map dict_val users)), (''count'', PInt (int (length first_names)))], w')"
    using assms l len by (simp add: generate_sample_user_def)
  have "map_of (users ! i) ''id'' = Some (PInt (int i + 1))
         \<and> map_of (users ! i) ''firstName'' = Some (PStr (first_names ! i))
         \<and> map_of (users ! i) ''lastName'' = Some (PStr (last_names ! (i mod length last_names)))
         \<and> map_of (users ! i) ''email'' =
             Some (PStr (slugify (first_names ! i) @ ''.''
                @ slugify (last_names ! (i mod length last_names))
                @ ''@'' @ py_lower (py_strip (domains ! (i mod length domains)))))
         \<and> CHR ''@'' \<notin> set (slugify (first_names ! i) @ ''.''
                @ slugify (last_names ! (i mod length last_names)))
         \<and> (\<exists>age. map_of (users ! i) ''age'' = Some (PInt age) \<and> min_age \<le> age \<and> age \<le> max_age)"
    if i: "i < length first_names" for i
  proof -
    from each i obtain number age k days where
      u: "users ! i =
             [(''id'', PInt (int i + 1)),
              (''firstName'', PStr (first_names ! i)),
              (''lastName'', PStr (last_names ! (i mod length last_names))),
              (''email'', PStr (slugify (first_names ! i) @ ''.''
                 @ slugify (last_names ! (i mod length last_names))
                 @ ''@'' @ py_lower (py_strip (domains ! (i mod length domains))))),
              (''username'', PStr (slugify (first_names ! i) @ str_int number)),
              (''age'', PInt age),
              (''registeredAt'', PStr (iso_days_ago rt k days))]"
      and ab: "min_age \<le> age" "age \<le> max_age"
      by blast
    show ?thesis using ab no_at_in_slug by (simp add: u)
  qed
  with g len show ?thesis by blast
qed

theorem generate_sample_user_records_witness:
  "[''Ann'', ''Bob  X'', ''Cy''] \<noteq> [] \<and> [''Lee'', ''O Hara''] \<noteq> [] \<and> ['' Example.ORG ''] \<noteq> []
   \<and> (0::int) \<le> 20 \<and> (20::int) \<le> 30
   \<and> (\<exists>users w'.
        generate_sample_user sample_runtime [''Ann'', ''Bob  X'', ''Cy''] [''Lee'', ''O Hara'']
            ['' Example.ORG ''] 20 30 empty_world =
          (Inr [(''users'', PList (map dict_val users)), (''count'', PInt 3)], w')
        \<and> length users = 3
        \<and> map_of (users ! 2) ''id'' = Some (PInt 3)
        \<and> map_of (users ! 2) ''firstName'' = Some (PStr ''Cy'')
        \<and> map_of (users ! 2) ''lastName'' = Some (PStr ''Lee'')
        \<and> map_of (users ! 2) ''email'' = Some (PStr ''cy.lee@example.org'')
        \<and> (\<exists>age. map_of (users ! 2) ''age'' = Some (PInt age) \<and> 20 \<le> age \<and> age \<le> 30))"
proof -
  let ?fn = "[''Ann'', ''Bob  X'', ''Cy'']" and ?ln = "[''Lee'', ''O Hara'']"
    and ?dm = "['' Example.ORG '']"
  have e: "slugify ''Cy'' @ ''.'' @ slugify ''Lee'' @ ''@''
      @ py_lower (py_strip '' Example.ORG '') = ''cy.lee@example.org''"
    by code_simp
  have n: "?fn ! 2 = ''Cy''" "?ln ! (2 mod length ?ln) = ''Lee''" "int (length ?fn) = 3"
    "(2::nat) < length ?fn" "length ?fn = 3"
    by code_simp+
  have p: "?fn \<noteq> []" "?ln \<noteq> []" "?dm \<noteq> []" "(0::int) \<le> 20" "(20::int) \<le> 30"
    by simp_all
  from generate_sample_user_records [OF p, of sample_runtime empty_world]
  obtain users w' where
    g: "generate_sample_user sample_runtime ?fn ?ln ?dm 20 30 empty_world =
          (Inr [(''users'', PList (map dict_val users)), (''count'', PInt (int (length ?fn)))], w')"
    and len: "length users = length ?fn"
    and each: "\<forall>i < length ?fn.
           map_of (users ! i) ''id'' = Some (PInt (int i + 1))
         \<and> map_of (users ! i) ''firstName'' = Some (PStr (?fn ! i))
         \<and> map_of (users ! i) ''lastName'' = Some (PStr (?ln ! (i mod length ?ln)))
         \<and> map_of (users ! i) ''email'' =
             Some (PStr (slugify (?fn ! i) @ ''.''
                @ slugify (?ln ! (i mod length ?ln))
                @ ''@'' @ py_lower (py_strip (?dm ! (i mod length ?dm)))))
         \<and> CHR ''@'' \<notin> set (slugify (?fn ! i) @ ''.'' @ slugify (?ln ! (i mod length ?ln)))
         \<and> (\<exists>age. map_of (users ! i) ''age'' = Some (PInt age) \<and> 20 \<le> age \<and> age \<le> 30)"
    by blast
  from each n(4) have two:
      "map_of (users ! 2) ''id'' = Some (PInt (int 2 + 1))
         \<and> map_of (users ! 2) ''firstName'' = Some (PStr (?fn ! 2))
         \<and> map_of (users ! 2) ''lastName'' = Some (PStr (?ln ! (2 mod length ?ln)))
         \<and> map_of (users ! 2) ''email'' =
             Some (PStr (slugify (?fn ! 2) @ ''.''
                @ slugify (?ln ! (2 mod length ?ln))
                @ ''@'' @ py_lower (py_strip (?dm ! (2 mod length ?dm)))))
         \<and> CHR ''@'' \<notin> set (slugify (?fn ! 2) @ ''.'' @ slugify (?ln ! (2 mod length ?ln)))
         \<and> (\<exists>age. map_of (users ! 2) ''age'' = Some (PInt age) \<and> 20 \<le> age \<and> age \<le> 30)"
    by blast
  have r: "map_of (users ! 2) ''id'' = Some (PInt 3)
        \<and> map_of (users ! 2) ''firstName'' = Some (PStr ''Cy'')
        \<and> map_of (users ! 2) ''lastName'' = Some (PStr ''Lee'')
        \<and> map_of (users ! 2) ''email'' = Some (PStr ''cy.lee@example.org'')
        \<and> (\<exists>age. map_of (users ! 2) ''age'' = Some (PInt age) \<and> 20 \<le> age \<and> age \<le> 30)"
    using two unfolding n(1,2) using e by simp
  have g3: "generate_sample_user sample_runtime ?fn ?ln ?dm 20 30 empty_world =
          (Inr [(''users'', PList (map dict_val users)), (''count'', PInt 3)], w')"
    using g unfolding n(3) .
  have len3: "length users = 3" using len unfolding n(5) .
  from p g3 len3 r show ?thesis by blast
qed

section \<open>What the tools return\<close>

lemma generate_returns_dict:
  "\<exists>d w'. generate_sample_user rt first_names last_names domains min_age max_age w = (Inr d, w')"
proof (cases "first_names \<noteq> [] \<and> last_names \<noteq> [] \<and> domains \<noteq> [] \<and> min_age \<le> max_age
    \<and> \<not> (min_age < 0 \<or> max_age < 0)")
  case True
  then obtain new w' where
    "users_loop rt last_names domains min_age max_age 0 first_names [] w = (Inr ([] @ new), w')"
    using users_loop_result [of last_names domains min_age max_age rt 0 first_names "[]" w]
    by blast
  with True show ?thesis by (simp add: generate_sample_user_def)
next
  case False
  then show ?thesis by (auto simp: generate_sample_user_def)
qed

lemma generate_result_shape:
  assumes "generate_sample_user rt first_names last_names domains min_age max_age w = (Inr d, w')"
  shows "(\<exists>msg. d = error_dict msg)
     \<or> (\<exists>users. d = [(''users'', PList (map dict_val users)), (''count'', PInt (int (length users)))])"
  using assms unfolding generate_sample_user_def
  by (auto split: if_splits prod.splits sum.splits)

lemma write_json_result:
  "(\<exists>n. fst (write_json rt filepath data w)
        = ''Successfully wrote JSON to '' @ quoted filepath @ '' ('' @ str_int n @ '' characters).'')
   \<or> (\<exists>e. fst (write_json rt filepath data w) = write_error e)"
  unfolding write_json_def write_text_def
  by (auto split: sum.splits prod.splits option.splits)

lemma read_json_result:
  "read_json rt filepath w = not_found_error filepath
   \<or> (\<exists>e. read_json rt filepath w = invalid_json_error e)
   \<or> (\<exists>e. read_json rt filepath w = read_error e)
   \<or> (\<exists>d. json_dumps_pretty rt d = Inr (read_json rt filepath w))"
  unfolding read_json_def read_json_except_def
  by (auto split: sum.splits)

lemma save_users_result:
  "(\<exists>n. fst (save_users rt filepath fn ln dm a b w)
        = ''Saved '' @ py_str rt n @ '' users to '' @ quoted filepath @ ''.'')
   \<or> (\<exists>reason. fst (save_users rt filepath fn ln dm a b w) = generation_error rt reason)
   \<or> (\<exists>e. fst (save_users rt filepath fn ln dm a b w) = save_error e)"
  unfolding save_users_def write_text_def py_getitem_def
  by (auto split: sum.splits prod.splits option.splits)

text \<open>
  Claim C4, as the code has it. For every argument assignment and every state of the
  world, the value that \<open>write_json\<close>, \<open>read_json\<close> or \<open>save_users\<close> returns is a string:
  for \<open>write_json\<close> the success message for its path or \<open>Error writing JSON: ...\<close>; for
  \<open>read_json\<close> the document printed by \<open>json.dumps\<close> or one of its three error texts;
  for \<open>save_users\<close> the message \<open>Saved n users to ...\<close>, \<open>Error generating users: ...\<close> or
  \<open>Error saving users: ...\<close>. The value that \<open>generate_sample_user\<close> returns is a dict,
  \<open>{error}\<close> or \<open>{users, count}\<close>, and not a string: its signature says \<open>-> dict\<close>, and
  \<open>save_users\<close> reads the keys of that dict.
\<close>

theorem tool_result_kinds:
  "(invoke rt WriteJson args w = (Inr v, w') \<longrightarrow>
      (\<exists>filepath data. bind_write_json rt args = Inr (filepath, data)
         \<and> ((\<exists>n. v = PStr (''Successfully wrote JSON to '' @ quoted filepath @ '' (''
                       @ str_int n @ '' characters).''))
            \<or> (\<exists>e. v = PStr (write_error e)))))
   \<and> (invoke rt ReadJson args w = (Inr v, w') \<longrightarrow>
      (\<exists>filepath. bind_read_json rt args = Inr filepath
         \<and> (v = PStr (not_found_error filepath)
            \<or> (\<exists>e. v = PStr (invalid_json_error e))
            \<or> (\<exists>e. v = PStr (read_error e))
            \<or> (\<exists>d s. json_dumps_pretty rt d = Inr s \<and> v = PStr s))))
   \<and> (invoke rt SaveUsers args w = (Inr v, w') \<longrightarrow>
      (\<exists>filepath fn ln dm a b. bind_save_users rt args = Inr (filepath, fn, ln, dm, a, b)
         \<and> ((\<exists>n. v = PStr (''Saved '' @ py_str rt n @ '' users to '' @ quoted filepath @ ''.''))
            \<or> (\<exists>reason. v = PStr (generation_error rt reason))
            \<or> (\<exists>e. v = PStr (save_error e)))))
   \<and> (invoke rt GenerateSampleUser args w = (Inr v, w') \<longrightarrow>
      \<not> is_str v
      \<and> ((\<exists>msg. v = dict_val (error_dict msg))
         \<or> (\<exists>users. v = dict_val [(''users'', PList (map dict_val users)),
                                   (''count'', PInt (int (length users)))])))"
proof -
  have 1: "\<exists>filepath data. bind_write_json rt args = Inr (filepath, data)
         \<and> ((\<exists>n. v = PStr (''Successfully wrote JSON to '' @ quoted filepath @ '' (''
                       @ str_int n @ '' characters).''))
            \<or> (\<exists>e. v = PStr (write_error e)))"
    if i: "invoke rt WriteJson args w = (Inr v, w')"
  proof -
    from i obtain filepath data where b: "bind_write_json rt args = Inr (filepath, data)"
      by (auto simp: invoke_def split: sum.splits)
    with i have "v = PStr (fst (write_json rt filepath data w))"
      by (auto simp: invoke_def split: prod.splits)
    with b write_json_result [of rt filepath data w] show ?thesis by auto
  qed
  have 2: "\<exists>filepath. bind_read_json rt args = Inr filepath
         \<and> (v = PStr (not_found_error filepath)
            \<or> (\<exists>e. v = PStr (invalid_json_error e))
            \<or> (\<exists>e. v = PStr (read_error e))
            \<or> (\<exists>d s. json_dumps_pretty rt d = Inr s \<and> v = PStr s))"
    if i: "invoke rt ReadJson args w = (Inr v, w')"
  proof -
    from i obtain filepath where b: "bind_read_json rt args = Inr filepath"
      by (auto simp: invoke_def split: sum.splits)
    with i have "v = PStr (read_json rt filepath w)"
      by (auto simp: invoke_def)
    with b read_json_result [of rt filepath w] show ?thesis by auto
  qed
  have 3: "\<exists>filepath fn ln dm a b. bind_save_users rt args = Inr (filepath, fn, ln, dm, a, b)
         \<and> ((\<exists>n. v = PStr (''Saved '' @ py_str rt n @ '' users to '' @ quoted filepath @ ''.''))
            \<or> (\<exists>reason. v = PStr (generation_error rt reason))
            \<or> (\<exists>e. v = PStr (save_error e)))"
    if i: "invoke rt SaveUsers args w = (Inr v, w')"
  proof -
    from i obtain filepath fn ln dm a b where
      b: "bind_save_users rt args = Inr (filepath, fn, ln, dm, a, b)"
      by (auto simp: invoke_def split: sum.splits)
    with i have "v = PStr (fst (save_users rt filepath fn ln dm a b w))"
      by (auto simp: invoke_def split: prod.splits)
    with b save_users_result [of rt filepath fn ln dm a b w] show ?thesis by auto
  qed
  have 4: "\<not> is_str v
      \<and> ((\<exists>msg. v = dict_val (error_dict msg))
         \<or> (\<exists>users. v = dict_val [(''users'', PList (map dict_val users)),
                                   (''count'', PInt (int (length users)))]))"
    if i: "invoke rt GenerateSampleUser args w = (Inr v, w')"
  proof -
    from i obtain fn ln dm a b where
      b: "bind_generate_sample_user rt args = Inr (fn, ln, dm, a, b)"
      by (auto simp: invoke_def split: sum.splits)
    with i obtain d where g: "generate_sample_user rt fn ln dm a b w = (Inr d, w')"
      and v: "v = dict_val d"
      by (auto simp: invoke_def split: prod.splits sum.splits)
    from generate_result_shape [OF g] v show ?thesis
      by (auto simp: is_str_def dict_val_def)
  qed
  from 1 2 3 4 show ?thesis by blast
qed

theorem tool_result_kinds_witness:
  "fst (invoke sample_runtime WriteJson
          [(''filepath'', PStr ''out.json''), (''data'', PDict [(PStr ''a'', PInt 1)])] empty_world)
     = Inr (PStr (''Successfully wrote JSON to '' @ quoted ''out.json'' @ '' (12 characters).''))
   \<and> fst (invoke sample_runtime ReadJson [(''filepath'', PStr ''nothing.json'')] empty_world)
     = Inr (PStr (not_found_error ''nothing.json''))
   \<and> fst (invoke sample_runtime SaveUsers [(''filepath'', PStr ''u.json''), (''min_age'', PInt 9),
          (''max_age'', PInt 3)] empty_world)
     = Inr (PStr (generation_error sample_runtime (PStr ''min_age (9) cannot be greater than max_age (3)'')))
   \<and> (\<exists>filepath. bind_read_json sample_runtime [(''filepath'', PStr ''nothing.json'')] = Inr filepath
         \<and> (PStr (not_found_error ''nothing.json'') = PStr (not_found_error filepath)
            \<or> (\<exists>e. PStr (not_found_error ''nothing.json'') = PStr (invalid_json_error e))
            \<or> (\<exists>e. PStr (not_found_error ''nothing.json'') = PStr (read_error e))
            \<or> (\<exists>d s. json_dumps_pretty sample_runtime d = Inr s
                  \<and> PStr (not_found_error ''nothing.json'') = PStr s)))"
proof -
  have a: "fst (invoke sample_runtime WriteJson
          [(''filepath'', PStr ''out.json''), (''data'', PDict [(PStr ''a'', PInt 1)])] empty_world)
     = Inr (PStr (''Successfully wrote JSON to '' @ quoted ''out.json'' @ '' (12 characters).''))"
    by code_simp
  have b: "fst (invoke sample_runtime ReadJson [(''filepath'', PStr ''nothing.json'')] empty_world)
     = Inr (PStr (not_found_error ''nothing.json''))"
    by code_simp
  have c: "fst (invoke sample_runtime SaveUsers [(''filepath'', PStr ''u.json''), (''min_age'', PInt 9),
          (''max_age'', PInt 3)] empty_world)
     = Inr (PStr (generation_error sample_runtime (PStr ''min_age (9) cannot be greater than max_age (3)'')))"
    by code_simp
  from b have "invoke sample_runtime ReadJson [(''filepath'', PStr ''nothing.json'')] empty_world
     = (Inr (PStr (not_found_error ''nothing.json'')),
        snd (invoke sample_runtime ReadJson [(''filepath'', PStr ''nothing.json'')] empty_world))"
    by (simp add: prod_eq_iff)
  with tool_result_kinds [where rt = sample_runtime and args = "[(''filepath'', PStr ''nothing.json'')]"
      and w = empty_world and v = "PStr (not_found_error ''nothing.json'')"
      and w' = "snd (invoke sample_runtime ReadJson [(''filepath'', PStr ''nothing.json'')] empty_world)"]
  have "\<exists>filepath. bind_read_json sample_runtime [(''filepath'', PStr ''nothing.json'')] = Inr filepath
         \<and> (PStr (not_found_error ''nothing.json'') = PStr (not_found_error filepath)
            \<or> (\<exists>e. PStr (not_found_error ''nothing.json'') = PStr (invalid_json_error e))
            \<or> (\<exists>e. PStr (not_found_error ''nothing.json'') = PStr (read_error e))
            \<or> (\<exists>d s. json_dumps_pretty sample_runtime d = Inr s
                  \<and> PStr (not_found_error ''nothing.json'') = PStr s))"
    by blast
  with a b c show ?thesis by (intro conjI)
qed

text \<open>
  Claim C4 as it was stated has every tool of the registry return a string. The value
  \<open>generate_sample_user\<close> returns for one first name is a dict with the keys \<open>users\<close>
  and \<open>count\<close>.
\<close>

theorem generate_sample_user_returns_dict:
  "fst (invoke sample_runtime GenerateSampleUser
          [(''first_names'', PList [PStr ''Ann'']), (''last_names'', PList [PStr ''Lee'']),
           (''domains'', PList [PStr ''example.org'']), (''min_age'', PInt 20),
           (''max_age'', PInt 30)] empty_world)
     = Inr (PDict [(PStr ''users'', PList [PDict [(PStr ''id'', PInt 1), (PStr ''firstName'', PStr ''Ann''),
           (PStr ''lastName'', PStr ''Lee''), (PStr ''email'', PStr ''ann.lee@example.org''),
           (PStr ''username'', PStr ''ann103''), (PStr ''age'', PInt 30),
           (PStr ''registeredAt'', PStr ''now-18d'')]]), (PStr ''count'', PInt 1)])
   \<and> \<not> is_str (PDict [(PStr ''users'', PList [PDict [(PStr ''id'', PInt 1), (PStr ''firstName'', PStr ''Ann''),
           (PStr ''lastName'', PStr ''Lee''), (PStr ''email'', PStr ''ann.lee@example.org''),
           (PStr ''username'', PStr ''ann103''), (PStr ''age'', PInt 30),
           (PStr ''registeredAt'', PStr ''now-18d'')]]), (PStr ''count'', PInt 1)])"
  by code_simp

section \<open>The conversation loop: rounds, answers and failures\<close>

lemma exec_tool_call_unknown:
  assumes "lookup_tool (call_name tc) = None" and "call_id tc = Some i"
  shows "exec_tool_call rt tc (ms, w) =
           (None, ms @ [ToolMessage (PStr (unknown_tool_error (name_text (call_name tc)))) i], w)"
  using assms by (simp add: exec_tool_call_def tool_message_def)

lemma exec_tool_call_known:
  assumes "lookup_tool (call_name tc) = Some t" and "call_id tc = Some i"
  shows "exec_tool_call rt tc (ms, w) =
           (None,
            ms @ [ToolMessage
                    (PStr (py_str rt (fst (try_invoke rt t (call_name tc) (call_args tc) w)))) i],
            snd (try_invoke rt t (call_name tc) (call_args tc) w))"
  using assms by (simp add: exec_tool_call_def tool_message_def split: prod.splits)

lemma exec_tool_call_raised:
  assumes "lookup_tool (call_name tc) = Some t" and "invoke rt t (call_args tc) w = (Inl e, w')"
    and "call_id tc = Some i"
  shows "exec_tool_call rt tc (ms, w) =
           (None, ms @ [ToolMessage (PStr (tool_run_error (name_text (call_name tc)) e)) i], w')"
  using assms by (simp add: exec_tool_call_known try_invoke_def py_str_def)

lemma exec_tool_call_returned:
  assumes "lookup_tool (call_name tc) = Some t" and "invoke rt t (call_args tc) w = (Inr v, w')"
    and "call_id tc = Some i"
  shows "exec_tool_call rt tc (ms, w) = (None, ms @ [ToolMessage (PStr (py_str rt v)) i], w')"
  using assms by (simp add: exec_tool_call_known try_invoke_def)

lemma exec_tool_call_null_id:
  assumes "call_id tc = None"
  shows "\<exists>w'. exec_tool_call rt tc (ms, w) = (Some tool_message_error, ms, w')"
  using assms by (auto simp: exec_tool_call_def tool_message_def split: option.splits prod.splits)

lemma exec_tool_call_appends:
  assumes "call_id tc = Some i"
  shows "\<exists>c w'. exec_tool_call rt tc (ms, w) = (None, ms @ [ToolMessage (PStr c) i], w')"
proof (cases "lookup_tool (call_name tc)")
  case None
  with assms show ?thesis by (simp add: exec_tool_call_unknown)
next
  case (Some t)
  with assms show ?thesis by (simp add: exec_tool_call_known)
qed

lemma exec_tool_calls_ok:
  assumes "exec_tool_calls rt tcs (ms, w) = (None, ms', w')"
  shows "\<exists>tms. ms' = ms @ tms \<and> list_all2 answers tcs tms \<and> list_all tool_content_is_str tms"
  using assms
proof (induction tcs arbitrary: ms w)
  case Nil
  then show ?case by simp
next
  case (Cons tc tcs)
  show ?case
  proof (cases "call_id tc")
    case None
    from exec_tool_call_null_id [OF None, of rt ms w] Cons.prems show ?thesis by auto
  next
    case (Some i)
    from exec_tool_call_appends [OF Some, of rt ms w] obtain c w1 where
      1: "exec_tool_call rt tc (ms, w) = (None, ms @ [ToolMessage (PStr c) i], w1)"
      by blast
    with Cons.prems have "exec_tool_calls rt tcs (ms @ [ToolMessage (PStr c) i], w1) = (None, ms', w')"
      by simp
    from Cons.IH [OF this] obtain tms where
      2: "ms' = (ms @ [ToolMessage (PStr c) i]) @ tms"
      and 3: "list_all2 answers tcs tms" and 4: "list_all tool_content_is_str tms"
      by blast
    have "ms' = ms @ (ToolMessage (PStr c) i # tms)" using 2 by simp
    moreover have "list_all2 answers (tc # tcs) (ToolMessage (PStr c) i # tms)"
      using 3 Some by (simp add: answers_def)
    moreover have "list_all tool_content_is_str (ToolMessage (PStr c) i # tms)"
      using 4 by (simp add: tool_content_is_str_def is_str_def)
    ultimately show ?thesis by blast
  qed
qed

lemma exec_tool_calls_partial:
  "\<exists>tms. fst (snd (exec_tool_calls rt tcs (ms, w))) = ms @ tms \<and> list_all tool_content_is_str tms"
proof (induction tcs arbitrary: ms w)
  case Nil
  show ?case by simp
next
  case (Cons tc tcs)
  show ?case
  proof (cases "call_id tc")
    case None
    from exec_tool_call_null_id [OF None, of rt ms w] show ?thesis by auto
  next
    case (Some i)
    from exec_tool_call_appends [OF Some, of rt ms w] obtain c w1 where
      1: "exec_tool_call rt tc (ms, w) = (None, ms @ [ToolMessage (PStr c) i], w1)"
      by blast
    from Cons.IH [of "ms @ [ToolMessage (PStr c) i]" w1] obtain tms where
      2: "fst (snd (exec_tool_calls rt tcs (ms @ [ToolMessage (PStr c) i], w1)))
            = (ms @ [ToolMessage (PStr c) i]) @ tms"
      and 4: "list_all tool_content_is_str tms"
      by blast
    have "fst (snd (exec_tool_calls rt (tc # tcs) (ms, w))) = ms @ (ToolMessage (PStr c) i # tms)"
      using 1 2 by simp
    moreover have "list_all tool_content_is_str (ToolMessage (PStr c) i # tms)"
      using 4 by (simp add: tool_content_is_str_def is_str_def)
    ultimately show ?thesis by blast
  qed
qed

lemma exec_tool_calls_raise:
  assumes "exec_tool_calls rt tcs (ms, w) = (Some e, st)"
  shows "e = tool_message_error \<and> (\<exists>tc. tc \<in> set tcs \<and> call_id tc = None)"
  using assms
proof (induction tcs arbitrary: ms w)
  case Nil
  then show ?case by simp
next
  case (Cons tc tcs)
  show ?case
  proof (cases "call_id tc")
    case None
    from exec_tool_call_null_id [OF None, of rt ms w] Cons.prems None show ?thesis by auto
  next
    case (Some i)
    from exec_tool_call_appends [OF Some, of rt ms w] obtain c w1 where
      1: "exec_tool_call rt tc (ms, w) = (None, ms @ [ToolMessage (PStr c) i], w1)"
      by blast
    with Cons.prems have "exec_tool_calls rt tcs (ms @ [ToolMessage (PStr c) i], w1) = (Some e, st)"
      by simp
    from Cons.IH [OF this] show ?thesis by auto
  qed
qed

lemma exec_tool_calls_no_raise:
  assumes "list_all (\<lambda>tc. call_id tc \<noteq> None) tcs"
  shows "fst (exec_tool_calls rt tcs (ms, w)) = None"
proof (cases "fst (exec_tool_calls rt tcs (ms, w))")
  case None
  then show ?thesis .
next
  case (Some e)
  then have "exec_tool_calls rt tcs (ms, w) = (Some e, snd (exec_tool_calls rt tcs (ms, w)))"
    by (simp add: prod_eq_iff)
  from exec_tool_calls_raise [OF this] assms show ?thesis by (auto simp: list_all_iff)
qed

lemma successively_nth:
  assumes "successively P xs" and "Suc k < length xs"
  shows "P (xs ! k) (xs ! Suc k)"
  using assms
proof (induction xs arbitrary: k)
  case Nil
  then show ?case by simp
next
  case (Cons x xs)
  from Cons.prems(2) have ne: "xs \<noteq> []" by auto
  with Cons.prems(1) have 1: "P x (hd xs)" and 2: "successively P xs"
    by (simp_all add: successively_Cons)
  show ?case
  proof (cases k)
    case 0
    with 1 ne show ?thesis by (simp add: hd_conv_nth)
  next
    case (Suc j)
    with Cons.prems(2) have "Suc j < length xs" by simp
    from Cons.IH [OF 2 this] Suc show ?thesis by simp
  qed
qed

lemma chat_rounds_trace:
  "\<exists>new. invocations (snd (chat_rounds rt model n st)) = invocations st @ new
      \<and> length new \<le> n \<and> (n = 0 \<or> new \<noteq> [])
      \<and> (new \<noteq> [] \<longrightarrow> hd new = (messages st, env_world st))
      \<and> successively (round_step rt model) new
      \<and> (new \<noteq> [] \<longrightarrow>
           last_round rt model (last new)
             (fst (chat_rounds rt model n st),
              messages (snd (chat_rounds rt model n st)),
              env_world (snd (chat_rounds rt model n st))))"
proof (induction n arbitrary: st)
  case 0
  show ?case by simp
next
  case (Suc n)
  let ?c = "(messages st, env_world st)"
  let ?R = "chat_rounds rt model (Suc n) st"
  have single: "?case"
    if inv: "invocations (snd ?R) = invocations st @ [?c]"
      and lr: "last_round rt model ?c (fst ?R, messages (snd ?R), env_world (snd ?R))"
  proof -
    have "invocations (snd ?R) = invocations st @ [?c] \<and> length [?c] \<le> Suc n
        \<and> (Suc n = 0 \<or> [?c] \<noteq> []) \<and> ([?c] \<noteq> [] \<longrightarrow> hd [?c] = ?c)
        \<and> successively (round_step rt model) [?c]
        \<and> ([?c] \<noteq> [] \<longrightarrow>
             last_round rt model (last [?c]) (fst ?R, messages (snd ?R), env_world (snd ?R)))"
      using inv lr by simp
    then show ?case by blast
  qed
  show ?case
  proof (cases "model (messages st)")
    case (Inl e)
    have "invocations (snd ?R) = invocations st @ [?c]" using Inl by simp
    moreover have "last_round rt model ?c (fst ?R, messages (snd ?R), env_world (snd ?R))"
      using Inl by (simp add: last_round_def)
    ultimately show ?thesis by (rule single)
  next
    case (Inr ai)
    show ?thesis
    proof (cases "tool_calls ai = []")
      case True
      have "invocations (snd ?R) = invocations st @ [?c]" using Inr True by (simp add: Let_def)
      moreover have "last_round rt model ?c (fst ?R, messages (snd ?R), env_world (snd ?R))"
        using Inr True by (simp add: last_round_def Let_def)
      ultimately show ?thesis by (rule single)
    next
      case False
      obtain r ms' w' where
        ex: "exec_tool_calls rt (tool_calls ai) (messages st @ [AIMessage ai], env_world st)
               = (r, ms', w')"
        by (cases "exec_tool_calls rt (tool_calls ai) (messages st @ [AIMessage ai], env_world st)")
      show ?thesis
      proof (cases r)
        case (Some e)
        have "invocations (snd ?R) = invocations st @ [?c]"
          using Inr False ex Some by (simp add: Let_def)
        moreover have "last_round rt model ?c (fst ?R, messages (snd ?R), env_world (snd ?R))"
          using Inr False ex Some by (simp add: last_round_def Let_def)
        ultimately show ?thesis by (rule single)
      next
        case None
        define st' where
          "st' = st\<lparr>invocations := invocations st @ [?c],
                    messages := ms', env_world := w'\<rparr>"
        let ?R' = "chat_rounds rt model n st'"
        have step: "?R = ?R'"
          using Inr False ex None by (simp add: Let_def st'_def)
        have rs: "round_step rt model ?c (ms', w')"
          using Inr False ex None by (auto simp: round_step_def)
        from Suc.IH [of st'] obtain new where
          1: "invocations (snd ?R') = invocations st' @ new"
          and 2: "length new \<le> n" and 3: "n = 0 \<or> new \<noteq> []"
          and 4: "new \<noteq> [] \<longrightarrow> hd new = (messages st', env_world st')"
          and 5: "successively (round_step rt model) new"
          and 6: "new \<noteq> [] \<longrightarrow>
                    last_round rt model (last new)
                      (fst ?R', messages (snd ?R'), env_world (snd ?R'))"
          by blast
        have a: "invocations (snd ?R) = invocations st @ (?c # new)"
          unfolding step using 1 by (simp add: st'_def)
        have b: "length (?c # new) \<le> Suc n" using 2 by simp
        have c: "successively (round_step rt model) (?c # new)"
          using 4 5 rs by (auto simp: successively_Cons st'_def)
        have d: "last_round rt model (last (?c # new))
                   (fst ?R, messages (snd ?R), env_world (snd ?R))"
        proof (cases "new = []")
          case True
          with 3 have "n = 0" by simp
          then have "?R' = (Inr loop_limit_error, st')" by simp
          then have "(fst ?R, messages (snd ?R), env_world (snd ?R))
                       = (Inr loop_limit_error, ms', w')"
            unfolding step by (simp add: st'_def)
          moreover have "last_round rt model ?c (Inr loop_limit_error, ms', w')"
            using Inr False ex None by (simp add: last_round_def)
          ultimately show ?thesis using True by simp
        next
          case False
          with 6 show ?thesis unfolding step by simp
        qed
        have "invocations (snd ?R) = invocations st @ (?c # new)
            \<and> length (?c # new) \<le> Suc n \<and> (Suc n = 0 \<or> ?c # new \<noteq> [])
            \<and> (?c # new \<noteq> [] \<longrightarrow> hd (?c # new) = ?c)
            \<and> successively (round_step rt model) (?c # new)
            \<and> (?c # new \<noteq> [] \<longrightarrow>
                 last_round rt model (last (?c # new))
                   (fst ?R, messages (snd ?R), env_world (snd ?R)))"
          using a b c d by simp
        then show ?thesis by blast
      qed
    qed
  qed
qed

lemma chat_rounds_added:
  "\<exists>added. messages (snd (chat_rounds rt model n st)) = messages st @ added
      \<and> list_all tool_content_is_str added"
proof (induction n arbitrary: st)
  case 0
  show ?case by simp
next
  case (Suc n)
  let ?R = "chat_rounds rt model (Suc n) st"
  show ?case
  proof (cases "model (messages st)")
    case (Inl e)
    then show ?thesis by simp
  next
    case (Inr ai)
    have ai_ok: "list_all tool_content_is_str [AIMessage ai]"
      by (simp add: tool_content_is_str_def)
    show ?thesis
    proof (cases "tool_calls ai = []")
      case True
      have "messages (snd ?R) = messages st @ [AIMessage ai]"
        using Inr True by (simp add: Let_def)
      with ai_ok show ?thesis by blast
    next
      case False
      obtain r ms' w' where
        ex: "exec_tool_calls rt (tool_calls ai) (messages st @ [AIMessage ai], env_world st)
               = (r, ms', w')"
        by (cases "exec_tool_calls rt (tool_calls ai) (messages st @ [AIMessage ai], env_world st)")
      from exec_tool_calls_partial [of rt "tool_calls ai" "messages st @ [AIMessage ai]" "env_world st"]
      obtain tms where
        t1: "ms' = (messages st @ [AIMessage ai]) @ tms" and t2: "list_all tool_content_is_str tms"
        unfolding ex by auto
      have t3: "ms' = messages st @ (AIMessage ai # tms)" using t1 by simp
      have t4: "list_all tool_content_is_str (AIMessage ai # tms)"
        using t2 by (simp add: tool_content_is_str_def)
      show ?thesis
      proof (cases r)
        case (Some e)
        have "messages (snd ?R) = ms'" using Inr False ex Some by (simp add: Let_def)
        with t3 t4 show ?thesis by blast
      next
        case None
        define st' where
          "st' = st\<lparr>invocations := invocations st @ [(messages st, env_world st)],
                    messages := ms', env_world := w'\<rparr>"
        have step: "?R = chat_rounds rt model n st'"
          using Inr False ex None by (simp add: Let_def st'_def)
        from Suc.IH [of st'] obtain added where
          1: "messages (snd (chat_rounds rt model n st')) = messages st' @ added"
          and 2: "list_all tool_content_is_str added"
          by blast
        have "messages (snd ?R) = messages st @ ((AIMessage ai # tms) @ added)"
          unfolding step using 1 t3 by (simp add: st'_def)
        moreover have "list_all tool_content_is_str ((AIMessage ai # tms) @ added)"
          using t4 2 by simp
        ultimately show ?thesis by blast
      qed
    qed
  qed
qed

lemma chat_rounds_tool_loop:
  assumes "\<forall>ms. \<exists>ai. model ms = Inr ai \<and> tool_calls ai \<noteq> []
             \<and> list_all (\<lambda>tc. call_id tc \<noteq> None) (tool_calls ai)"
  shows "fst (chat_rounds rt model n st) = Inr loop_limit_error
       \<and> length (invocations (snd (chat_rounds rt model n st))) = length (invocations st) + n"
proof (induction n arbitrary: st)
  case 0
  show ?case by simp
next
  case (Suc n)
  from assms obtain ai where
    ai: "model (messages st) = Inr ai" and ne: "tool_calls ai \<noteq> []"
    and ids: "list_all (\<lambda>tc. call_id tc \<noteq> None) (tool_calls ai)"
    by blast
  obtain r ms' w' where
    ex: "exec_tool_calls rt (tool_calls ai) (messages st @ [AIMessage ai], env_world st)
           = (r, ms', w')"
    by (cases "exec_tool_calls rt (tool_calls ai) (messages st @ [AIMessage ai], env_world st)")
  from exec_tool_calls_no_raise [OF ids, of rt "messages st @ [AIMessage ai]" "env_world st"] ex
  have r: "r = None" by simp
  define st' where
    "st' = st\<lparr>invocations := invocations st @ [(messages st, env_world st)],
              messages := ms', env_world := w'\<rparr>"
  have step: "chat_rounds rt model (Suc n) st = chat_rounds rt model n st'"
    using ai ne ex r by (simp add: Let_def st'_def)
  from Suc.IH [of st'] show ?case unfolding step by (simp add: st'_def)
qed

lemma last_round_raise:
  assumes "last_round rt model c (Inl x, st)"
  shows "model (fst c) = Inl x
       \<or> (\<exists>ai. model (fst c) = Inr ai \<and> tool_calls ai = [] \<and> reply_text rt (content ai) = Inl x)
       \<or> (\<exists>ai tc. model (fst c) = Inr ai \<and> tc \<in> set (tool_calls ai) \<and> call_id tc = None
             \<and> x = tool_message_error)"
proof (cases "model (fst c)")
  case (Inl e)
  with assms show ?thesis by (simp add: last_round_def)
next
  case (Inr ai)
  show ?thesis
  proof (cases "tool_calls ai = []")
    case True
    with assms Inr show ?thesis by (simp add: last_round_def)
  next
    case False
    obtain r st' where
      ex: "exec_tool_calls rt (tool_calls ai) (fst c @ [AIMessage ai], snd c) = (r, st')"
      by (cases "exec_tool_calls rt (tool_calls ai) (fst c @ [AIMessage ai], snd c)")
    show ?thesis
    proof (cases r)
      case None
      with assms Inr False ex show ?thesis by (simp add: last_round_def loop_limit_error_def)
    next
      case (Some e)
      with assms Inr False ex have "e = x" by (simp add: last_round_def)
      with exec_tool_calls_raise [of rt "tool_calls ai" "fst c @ [AIMessage ai]" "snd c" e st']
        ex Some Inr
      show ?thesis by auto
    qed
  qed
qed

lemma run_chat_trace:
  "invocations (snd (run_chat rt model input_text history_msgs w)) \<noteq> []
   \<and> length (invocations (snd (run_chat rt model input_text history_msgs w))) \<le> 8
   \<and> hd (invocations (snd (run_chat rt model input_text history_msgs w)))
        = (initial_messages input_text history_msgs, w)
   \<and> successively (round_step rt model)
        (invocations (snd (run_chat rt model input_text history_msgs w)))
   \<and> last_round rt model (last (invocations (snd (run_chat rt model input_text history_msgs w))))
        (fst (run_chat rt model input_text history_msgs w),
         messages (snd (run_chat rt model input_text history_msgs w)),
         env_world (snd (run_chat rt model input_text history_msgs w)))"
proof -
  let ?st = "\<lparr>messages = initial_messages input_text history_msgs, env_world = w,
              invocations = []\<rparr>"
  from chat_rounds_trace [of rt model 8 ?st] obtain new where
    1: "invocations (snd (chat_rounds rt model 8 ?st)) = invocations ?st @ new"
    and 2: "length new \<le> 8" and 3: "(8::nat) = 0 \<or> new \<noteq> []"
    and 4: "new \<noteq> [] \<longrightarrow> hd new = (messages ?st, env_world ?st)"
    and 5: "successively (round_step rt model) new"
    and 6: "new \<noteq> [] \<longrightarrow>
              last_round rt model (last new)
                (fst (chat_rounds rt model 8 ?st),
                 messages (snd (chat_rounds rt model 8 ?st)),
                 env_world (snd (chat_rounds rt model 8 ?st)))"
    by blast
  from 3 have ne: "new \<noteq> []" by simp
  from 1 have inv: "invocations (snd (run_chat rt model input_text history_msgs w)) = new"
    by (simp add: run_chat_def)
  from ne 2 4 5 6 show ?thesis unfolding inv by (simp add: run_chat_def)
qed

lemma round_step_answers:
  assumes "round_step rt model c c'"
  shows "\<exists>ai tms. model (fst c) = Inr ai \<and> fst c' = fst c @ [AIMessage ai] @ tms
           \<and> list_all2 answers (tool_calls ai) tms"
proof -
  from assms obtain ai where
    ai: "model (fst c) = Inr ai"
    and ex: "exec_tool_calls rt (tool_calls ai) (fst c @ [AIMessage ai], snd c) = (None, c')"
    by (auto simp: round_step_def)
  from ex have "exec_tool_calls rt (tool_calls ai) (fst c @ [AIMessage ai], snd c)
                  = (None, fst c', snd c')"
    by simp
  from exec_tool_calls_ok [OF this] obtain tms where
    "fst c' = (fst c @ [AIMessage ai]) @ tms" and "list_all2 answers (tool_calls ai) tms"
    by blast
  with ai show ?thesis by auto
qed

lemma last_round_answers:
  assumes "last_round rt model c (Inr s, ms, w)" and "model (fst c) = Inr ai"
  shows "\<exists>tms. ms = fst c @ [AIMessage ai] @ tms \<and> list_all2 answers (tool_calls ai) tms"
proof (cases "tool_calls ai = []")
  case True
  with assms show ?thesis by (simp add: last_round_def)
next
  case False
  obtain r ms' w' where
    ex: "exec_tool_calls rt (tool_calls ai) (fst c @ [AIMessage ai], snd c) = (r, ms', w')"
    by (cases "exec_tool_calls rt (tool_calls ai) (fst c @ [AIMessage ai], snd c)")
  show ?thesis
  proof (cases r)
    case (Some e)
    with assms False ex show ?thesis by (simp add: last_round_def)
  next
    case None
    with assms False ex have "ms = ms'" by (simp add: last_round_def)
    moreover from exec_tool_calls_ok [of rt "tool_calls ai" "fst c @ [AIMessage ai]" "snd c" ms' w']
      ex None
    obtain tms where "ms' = (fst c @ [AIMessage ai]) @ tms"
      and "list_all2 answers (tool_calls ai) tms"
      by blast
    ultimately show ?thesis by auto
  qed
qed

lemma unknown_tool_error_names: "sublist name (unknown_tool_error name)"
proof -
  have "unknown_tool_error name = (''Error: unknown tool '' @ [CHR 0x27]) @ name @ [CHR 0x27]"
    by (simp add: unknown_tool_error_def quoted_def)
  then show ?thesis by (simp only: sublist_mid)
qed

lemma tool_run_error_names:
  "sublist name (tool_run_error name e)" "sublist (exc_str e) (tool_run_error name e)"
proof -
  have "tool_run_error name e = (''Error running tool '' @ [CHR 0x27]) @ name @ ([CHR 0x27] @ '': '' @ exc_str e)"
    by (simp add: tool_run_error_def quoted_def)
  then show "sublist name (tool_run_error name e)" by (simp only: sublist_mid)
  have "tool_run_error name e = (''Error running tool '' @ quoted name @ '': '') @ exc_str e @ []"
    by (simp add: tool_run_error_def)
  then show "sublist (exc_str e) (tool_run_error name e)" by (simp only: sublist_mid)
qed

text \<open>
  Claim C1, as the code has it. For every input text, history, model and world,
  \<open>run_chat\<close> invokes the model at most 8 times. If the model returns, for whatever it is
  sent, a reply that carries at least one tool call, and no tool call has the id \<open>None\<close>,
  then \<open>run_chat\<close> invokes it exactly 8 times and returns the fixed text
  \<open>Error: exceeded tool-calling loop limit.\<close> That text differs from every error text of
  the tool path: unknown tool, tool failure, and the error texts of \<open>write_json\<close>,
  \<open>read_json\<close>, \<open>save_users\<close> and \<open>generate_sample_user\<close>, whatever names, paths and
  exceptions they carry.
\<close>

theorem loop_cap_and_exhaustion:
  "length (invocations (snd (run_chat rt model input_text history_msgs w))) \<le> 8
   \<and> ((\<forall>ms. \<exists>ai. model ms = Inr ai \<and> tool_calls ai \<noteq> []
              \<and> list_all (\<lambda>tc. call_id tc \<noteq> None) (tool_calls ai)) \<longrightarrow>
        fst (run_chat rt model input_text history_msgs w) = Inr loop_limit_error
        \<and> length (invocations (snd (run_chat rt model input_text history_msgs w))) = 8)
   \<and> loop_limit_error = ''Error: exceeded tool-calling loop limit.''
   \<and> loop_limit_error \<noteq> unknown_tool_error name
   \<and> loop_limit_error \<noteq> tool_run_error name e
   \<and> loop_limit_error \<noteq> write_error e
   \<and> loop_limit_error \<noteq> not_found_error filepath
   \<and> loop_limit_error \<noteq> invalid_json_error e
   \<and> loop_limit_error \<noteq> read_error e
   \<and> loop_limit_error \<noteq> save_error e
   \<and> loop_limit_error \<noteq> generation_error rt reason"
proof -
  let ?st = "\<lparr>messages = initial_messages input_text history_msgs, env_world = w, invocations = []\<rparr>"
  have cap: "length (invocations (snd (run_chat rt model input_text history_msgs w))) \<le> 8"
    using run_chat_trace [of rt model input_text history_msgs w] by blast
  have loop: "fst (run_chat rt model input_text history_msgs w) = Inr loop_limit_error
        \<and> length (invocations (snd (run_chat rt model input_text history_msgs w))) = 8"
    if "\<forall>ms. \<exists>ai. model ms = Inr ai \<and> tool_calls ai \<noteq> []
              \<and> list_all (\<lambda>tc. call_id tc \<noteq> None) (tool_calls ai)"
    using chat_rounds_tool_loop [OF that, of rt 8 ?st] by (simp add: run_chat_def)
  have texts: "loop_limit_error = ''Error: exceeded tool-calling loop limit.''"
    "loop_limit_error \<noteq> unknown_tool_error name"
    "loop_limit_error \<noteq> tool_run_error name e"
    "loop_limit_error \<noteq> write_error e"
    "loop_limit_error \<noteq> not_found_error filepath"
    "loop_limit_error \<noteq> invalid_json_error e"
    "loop_limit_error \<noteq> read_error e"
    "loop_limit_error \<noteq> save_error e"
    "loop_limit_error \<noteq> generation_error rt reason"
    by (simp_all add: loop_limit_error_def unknown_tool_error_def tool_run_error_def write_error_def
        not_found_error_def invalid_json_error_def read_error_def save_error_def generation_error_def)
  from cap loop texts show ?thesis by blast
qed

theorem loop_cap_and_exhaustion_witness:
  "(\<forall>ms. \<exists>ai. tool_loop_model ms = Inr ai \<and> tool_calls ai \<noteq> []
           \<and> list_all (\<lambda>tc. call_id tc \<noteq> None) (tool_calls ai))
   \<and> fst (run_chat sample_runtime tool_loop_model ''Generate users'' [] empty_world)
       = Inr ''Error: exceeded tool-calling loop limit.''
   \<and> length (invocations (snd (run_chat sample_runtime tool_loop_model ''Generate users'' [] empty_world))) = 8
   \<and> length (messages (snd (run_chat sample_runtime tool_loop_model ''Generate users'' [] empty_world))) = 18"
proof -
  have h: "\<forall>ms. \<exists>ai. tool_loop_model ms = Inr ai \<and> tool_calls ai \<noteq> []
           \<and> list_all (\<lambda>tc. call_id tc \<noteq> None) (tool_calls ai)"
    by (simp add: tool_loop_model_def call_id_def)
  have m: "length (messages (snd (run_chat sample_runtime tool_loop_model ''Generate users'' [] empty_world))) = 18"
    by code_simp
  from loop_cap_and_exhaustion [of sample_runtime tool_loop_model "''Generate users''" "[]" empty_world]
  have "fst (run_chat sample_runtime tool_loop_model ''Generate users'' [] empty_world)
       = Inr ''Error: exceeded tool-calling loop limit.''
   \<and> length (invocations (snd (run_chat sample_runtime tool_loop_model ''Generate users'' [] empty_world))) = 8"
    using h by (simp add: loop_limit_error_def)
  with h m show ?thesis by blast
qed

text \<open>
  Claim C1 as it was stated has \<open>run_chat\<close> return the fixed text for every model that
  always replies with a tool call. The \<open>ToolMessage\<close> is constructed outside the \<open>try\<close>:
  with a model whose tool call has the id \<open>None\<close>, the first round raises the validation
  error of the constructor, after one model invocation, and nothing is returned.
\<close>

theorem loop_raises_on_null_id:
  "null_id_model (initial_messages ''Generate users'' []) = Inr \<lparr>content = PStr [],
                           tool_calls = [\<lparr>tc_name = KeyValue ''read_json'',
                                          tc_args = KeyValue [(''filepath'', PStr ''users.json'')],
                                          tc_id = KeyNone\<rparr>]\<rparr>
   \<and> fst (run_chat sample_runtime null_id_model ''Generate users'' [] empty_world)
       = Inl tool_message_error
   \<and> fst (run_chat sample_runtime null_id_model ''Generate users'' [] empty_world)
       \<noteq> Inr loop_limit_error
   \<and> length (invocations (snd (run_chat sample_runtime null_id_model ''Generate users'' [] empty_world))) = 1"
proof -
  have a: "null_id_model (initial_messages ''Generate users'' []) = Inr \<lparr>content = PStr [],
                           tool_calls = [\<lparr>tc_name = KeyValue ''read_json'',
                                          tc_args = KeyValue [(''filepath'', PStr ''users.json'')],
                                          tc_id = KeyNone\<rparr>]\<rparr>"
    by (simp add: null_id_model_def)
  have b: "fst (run_chat sample_runtime null_id_model ''Generate users'' [] empty_world)
       = Inl tool_message_error"
    by code_simp
  have c: "length (invocations (snd (run_chat sample_runtime null_id_model ''Generate users'' [] empty_world))) = 1"
    by code_simp
  from a b c show ?thesis by simp
qed

text \<open>
  Claim C2. In every round of \<open>run_chat\<close> that is followed by another model invocation,
  the messages of the next invocation are those of this one, then the model's reply, then
  exactly one \<open>ToolMessage\<close> per tool call of the reply, in the order of the calls, each
  with the \<open>tool_call_id\<close> of its call. The same holds of the final message list with
  respect to the last invocation, whenever \<open>run_chat\<close> returns. The first invocation is
  sent the initial messages.
\<close>

theorem tool_messages_answer_calls:
  "(\<forall>k. Suc k < length (invocations (snd (run_chat rt model input_text history_msgs w))) \<longrightarrow>
      (\<exists>ai tms.
         model (fst (invocations (snd (run_chat rt model input_text history_msgs w)) ! k)) = Inr ai
         \<and> fst (invocations (snd (run_chat rt model input_text history_msgs w)) ! Suc k)
             = fst (invocations (snd (run_chat rt model input_text history_msgs w)) ! k)
                 @ [AIMessage ai] @ tms
         \<and> list_all2 answers (tool_calls ai) tms))
   \<and> (\<forall>s ai. fst (run_chat rt model input_text history_msgs w) = Inr s
        \<and> model (fst (last (invocations (snd (run_chat rt model input_text history_msgs w)))))
            = Inr ai \<longrightarrow>
      (\<exists>tms.
         messages (snd (run_chat rt model input_text history_msgs w))
           = fst (last (invocations (snd (run_chat rt model input_text history_msgs w))))
               @ [AIMessage ai] @ tms
         \<and> list_all2 answers (tool_calls ai) tms))
   \<and> invocations (snd (run_chat rt model input_text history_msgs w)) \<noteq> []
   \<and> fst (hd (invocations (snd (run_chat rt model input_text history_msgs w))))
        = initial_messages input_text history_msgs"
proof -
  let ?R = "run_chat rt model input_text history_msgs w"
  let ?inv = "invocations (snd ?R)"
  from run_chat_trace [of rt model input_text history_msgs w]
  have n: "?inv \<noteq> []" and h: "hd ?inv = (initial_messages input_text history_msgs, w)"
    and s: "successively (round_step rt model) ?inv"
    and l: "last_round rt model (last ?inv) (fst ?R, messages (snd ?R), env_world (snd ?R))"
    by blast+
  have a: "\<exists>ai tms. model (fst (?inv ! k)) = Inr ai
         \<and> fst (?inv ! Suc k) = fst (?inv ! k) @ [AIMessage ai] @ tms
         \<and> list_all2 answers (tool_calls ai) tms" if "Suc k < length ?inv" for k
    using round_step_answers [OF successively_nth [OF s that]] .
  have b: "\<exists>tms. messages (snd ?R) = fst (last ?inv) @ [AIMessage ai] @ tms
         \<and> list_all2 answers (tool_calls ai) tms"
    if "fst ?R = Inr s \<and> model (fst (last ?inv)) = Inr ai" for s ai
  proof -
    from that l have "last_round rt model (last ?inv) (Inr s, messages (snd ?R), env_world (snd ?R))"
      by simp
    from last_round_answers [OF this] that show ?thesis by blast
  qed
  have c: "fst (hd ?inv) = initial_messages input_text history_msgs" using h by simp
  from a b c n show ?thesis by blast
qed

theorem tool_messages_answer_calls_witness:
  "Suc 0 < length (invocations (snd (run_chat sample_runtime scripted_model ''hi'' [] empty_world)))
   \<and> (\<exists>ai tms.
         scripted_model (fst (invocations (snd (run_chat sample_runtime scripted_model ''hi'' [] empty_world)) ! 0)) = Inr ai
         \<and> fst (invocations (snd (run_chat sample_runtime scripted_model ''hi'' [] empty_world)) ! Suc 0)
             = fst (invocations (snd (run_chat sample_runtime scripted_model ''hi'' [] empty_world)) ! 0)
                 @ [AIMessage ai] @ tms
         \<and> list_all2 answers (tool_calls ai) tms)
   \<and> map call_id scripted_calls = [Some ''c1'', Some ''c2'', Some ''c3'', Some ''c4'']
   \<and> [i. ToolMessage c i \<leftarrow> fst (invocations (snd (run_chat sample_runtime scripted_model ''hi'' [] empty_world)) ! Suc 0)]
        = [''c1'', ''c2'', ''c3'', ''c4'']
   \<and> [i. ToolMessage c i \<leftarrow> messages (snd (run_chat sample_runtime scripted_model ''hi'' [] empty_world))]
        = [''c1'', ''c2'', ''c3'', ''c4'']"
proof -
  let ?r = "snd (run_chat sample_runtime scripted_model ''hi'' [] empty_world)"
  have len: "length (invocations ?r) = 2" by code_simp
  then have lt: "Suc 0 < length (invocations ?r)" by simp
  have ids: "map call_id scripted_calls = [Some ''c1'', Some ''c2'', Some ''c3'', Some ''c4'']"
    by code_simp
  have tn: "[i. ToolMessage c i \<leftarrow> fst (invocations ?r ! Suc 0)] = [''c1'', ''c2'', ''c3'', ''c4'']"
    by code_simp
  have tm: "[i. ToolMessage c i \<leftarrow> messages ?r] = [''c1'', ''c2'', ''c3'', ''c4'']" by code_simp
  from tool_messages_answer_calls [of sample_runtime scripted_model "''hi''" "[]" empty_world] lt
  have "\<exists>ai tms. scripted_model (fst (invocations ?r ! 0)) = Inr ai
         \<and> fst (invocations ?r ! Suc 0) = fst (invocations ?r ! 0) @ [AIMessage ai] @ tms
         \<and> list_all2 answers (tool_calls ai) tms"
    by blast
  with lt ids tn tm show ?thesis by blast
qed

text \<open>
  Claim C3, as the code has it. A tool failure stays in the loop when the id of the tool
  call is a string (or absent, which reads as the empty string). A call that names an
  unregistered tool appends a \<open>ToolMessage\<close> whose content is an error text that contains
  the name, leaves the world as it is, and the remaining calls are run. A registered tool
  whose invocation raises appends a \<open>ToolMessage\<close> whose content contains the tool name
  and the text of the exception, and the remaining calls are run. A call whose id is
  \<open>None\<close> raises and appends nothing. The rounds of \<open>run_chat\<close> are these steps: each
  model invocation but the last is followed by the run of every call of the reply, none
  raising, and the next invocation is sent the messages so reached; the last invocation
  ends the run as \<open>last_round\<close> says. So \<open>run_chat\<close> raises only what the model invocation
  raises, or what \<open>json.dumps\<close> raises on a final content that is not a string, or the
  validation error of a \<open>ToolMessage\<close> for a tool call whose id is \<open>None\<close>.
\<close>

theorem tool_failures_stay_in_loop:
  "(lookup_tool (call_name tc) = None \<and> call_id tc = Some i \<longrightarrow>
      exec_tool_call rt tc (ms, wa) =
        (None, ms @ [ToolMessage (PStr (unknown_tool_error (name_text (call_name tc)))) i], wa)
      \<and> exec_tool_calls rt (tc # tcs) (ms, wa) =
          exec_tool_calls rt tcs
            (ms @ [ToolMessage (PStr (unknown_tool_error (name_text (call_name tc)))) i], wa)
      \<and> sublist (name_text (call_name tc)) (unknown_tool_error (name_text (call_name tc))))
   \<and> (lookup_tool (call_name tc) = Some t \<and> invoke rt t (call_args tc) wa = (Inl e, wb)
       \<and> call_id tc = Some i \<longrightarrow>
      exec_tool_call rt tc (ms, wa) =
        (None, ms @ [ToolMessage (PStr (tool_run_error (name_text (call_name tc)) e)) i], wb)
      \<and> exec_tool_calls rt (tc # tcs) (ms, wa) =
          exec_tool_calls rt tcs
            (ms @ [ToolMessage (PStr (tool_run_error (name_text (call_name tc)) e)) i], wb)
      \<and> sublist (name_text (call_name tc)) (tool_run_error (name_text (call_name tc)) e)
      \<and> sublist (exc_str e) (tool_run_error (name_text (call_name tc)) e))
   \<and> (call_id tc = None \<longrightarrow>
      fst (exec_tool_call rt tc (ms, wa)) = Some tool_message_error
      \<and> fst (snd (exec_tool_call rt tc (ms, wa))) = ms
      \<and> fst (exec_tool_calls rt (tc # tcs) (ms, wa)) = Some tool_message_error)
   \<and> (list_all (\<lambda>c. call_id c \<noteq> None) tcs \<longrightarrow>
      (\<exists>tms w'. exec_tool_calls rt tcs (ms, wa) = (None, ms @ tms, w')
         \<and> length tms = length tcs))
   \<and> (\<forall>k. Suc k < length (invocations (snd (run_chat rt model input_text history_msgs w))) \<longrightarrow>
        round_step rt model
          (invocations (snd (run_chat rt model input_text history_msgs w)) ! k)
          (invocations (snd (run_chat rt model input_text history_msgs w)) ! Suc k))
   \<and> last_round rt model (last (invocations (snd (run_chat rt model input_text history_msgs w))))
        (fst (run_chat rt model input_text history_msgs w),
         messages (snd (run_chat rt model input_text history_msgs w)),
         env_world (snd (run_chat rt model input_text history_msgs w)))
   \<and> (fst (run_chat rt model input_text history_msgs w) = Inl x \<longrightarrow>
        (\<exists>sent. model sent = Inl x)
        \<or> (\<exists>sent ai. model sent = Inr ai \<and> tool_calls ai = [] \<and> reply_text rt (content ai) = Inl x)
        \<or> (\<exists>sent ai c. model sent = Inr ai \<and> c \<in> set (tool_calls ai) \<and> call_id c = None
              \<and> x = tool_message_error))"
proof -
  let ?R = "run_chat rt model input_text history_msgs w"
  let ?inv = "invocations (snd ?R)"
  have a: "exec_tool_call rt tc (ms, wa) =
        (None, ms @ [ToolMessage (PStr (unknown_tool_error (name_text (call_name tc)))) i], wa)
      \<and> exec_tool_calls rt (tc # tcs) (ms, wa) =
          exec_tool_calls rt tcs
            (ms @ [ToolMessage (PStr (unknown_tool_error (name_text (call_name tc)))) i], wa)
      \<and> sublist (name_text (call_name tc)) (unknown_tool_error (name_text (call_name tc)))"
    if "lookup_tool (call_name tc) = None \<and> call_id tc = Some i"
  proof -
    from that have 1: "exec_tool_call rt tc (ms, wa) =
        (None, ms @ [ToolMessage (PStr (unknown_tool_error (name_text (call_name tc)))) i], wa)"
      by (simp add: exec_tool_call_unknown)
    then have "exec_tool_calls rt (tc # tcs) (ms, wa) =
          exec_tool_calls rt tcs
            (ms @ [ToolMessage (PStr (unknown_tool_error (name_text (call_name tc)))) i], wa)"
      by simp
    with 1 unknown_tool_error_names show ?thesis by blast
  qed
  have b: "exec_tool_call rt tc (ms, wa) =
        (None, ms @ [ToolMessage (PStr (tool_run_error (name_text (call_name tc)) e)) i], wb)
      \<and> exec_tool_calls rt (tc # tcs) (ms, wa) =
          exec_tool_calls rt tcs
            (ms @ [ToolMessage (PStr (tool_run_error (name_text (call_name tc)) e)) i], wb)
      \<and> sublist (name_text (call_name tc)) (tool_run_error (name_text (call_name tc)) e)
      \<and> sublist (exc_str e) (tool_run_error (name_text (call_name tc)) e)"
    if "lookup_tool (call_name tc) = Some t \<and> invoke rt t (call_args tc) wa = (Inl e, wb)
       \<and> call_id tc = Some i"
  proof -
    from that have 1: "exec_tool_call rt tc (ms, wa) =
        (None, ms @ [ToolMessage (PStr (tool_run_error (name_text (call_name tc)) e)) i], wb)"
      by (simp add: exec_tool_call_raised)
    then have "exec_tool_calls rt (tc # tcs) (ms, wa) =
          exec_tool_calls rt tcs
            (ms @ [ToolMessage (PStr (tool_run_error (name_text (call_name tc)) e)) i], wb)"
      by simp
    with 1 tool_run_error_names show ?thesis by blast
  qed
  have c: "fst (exec_tool_call rt tc (ms, wa)) = Some tool_message_error
      \<and> fst (snd (exec_tool_call rt tc (ms, wa))) = ms
      \<and> fst (exec_tool_calls rt (tc # tcs) (ms, wa)) = Some tool_message_error"
    if "call_id tc = None"
    using exec_tool_call_null_id [OF that, of rt ms wa] by auto
  have d: "\<exists>tms w'. exec_tool_calls rt tcs (ms, wa) = (None, ms @ tms, w') \<and> length tms = length tcs"
    if "list_all (\<lambda>c. call_id c \<noteq> None) tcs"
  proof -
    obtain r ms' w' where ex: "exec_tool_calls rt tcs (ms, wa) = (r, ms', w')"
      by (cases "exec_tool_calls rt tcs (ms, wa)")
    with exec_tool_calls_no_raise [OF that, of rt ms wa] have r: "r = None" by simp
    from exec_tool_calls_ok [of rt tcs ms wa ms' w'] ex r obtain tms where
      "ms' = ms @ tms" and "list_all2 answers tcs tms"
      by blast
    with ex r show ?thesis by (auto dest: list_all2_lengthD)
  qed
  from run_chat_trace [of rt model input_text history_msgs w]
  have s: "successively (round_step rt model) ?inv"
    and l: "last_round rt model (last ?inv) (fst ?R, messages (snd ?R), env_world (snd ?R))"
    by blast+
  have f: "round_step rt model (?inv ! k) (?inv ! Suc k)" if "Suc k < length ?inv" for k
    using successively_nth [OF s that] .
  have g: "(\<exists>sent. model sent = Inl x)
        \<or> (\<exists>sent ai. model sent = Inr ai \<and> tool_calls ai = [] \<and> reply_text rt (content ai) = Inl x)
        \<or> (\<exists>sent ai c. model sent = Inr ai \<and> c \<in> set (tool_calls ai) \<and> call_id c = None
              \<and> x = tool_message_error)"
    if "fst ?R = Inl x"
  proof -
    from l that have "last_round rt model (last ?inv) (Inl x, messages (snd ?R), env_world (snd ?R))"
      by simp
    from last_round_raise [OF this] show ?thesis by blast
  qed
  from a b c d f l g show ?thesis by blast
qed

theorem tool_failures_stay_in_loop_witness:
  "lookup_tool (call_name (scripted_calls ! 0)) = None
   \<and> call_id (scripted_calls ! 0) = Some ''c1''
   \<and> exec_tool_call sample_runtime (scripted_calls ! 0) ([], empty_world)
      = (None, [ToolMessage (PStr (unknown_tool_error ''delete_file'')) ''c1''], empty_world)
   \<and> lookup_tool (call_name (scripted_calls ! 1)) = Some ReadJson
   \<and> invoke sample_runtime ReadJson (call_args (scripted_calls ! 1)) empty_world
      = (Inl validation_error, empty_world)
   \<and> call_id (scripted_calls ! 1) = Some ''c2''
   \<and> exec_tool_call sample_runtime (scripted_calls ! 1) ([], empty_world)
      = (None, [ToolMessage (PStr (tool_run_error ''read_json'' validation_error)) ''c2''],
         empty_world)
   \<and> list_all (\<lambda>c. call_id c \<noteq> None) scripted_calls
   \<and> (\<exists>tms w'. exec_tool_calls sample_runtime scripted_calls ([], empty_world) = (None, [] @ tms, w')
         \<and> length tms = length scripted_calls)
   \<and> Suc 0 < length (invocations (snd (run_chat sample_runtime scripted_model ''hi'' [] empty_world)))
   \<and> round_step sample_runtime scripted_model
        (invocations (snd (run_chat sample_runtime scripted_model ''hi'' [] empty_world)) ! 0)
        (invocations (snd (run_chat sample_runtime scripted_model ''hi'' [] empty_world)) ! Suc 0)
   \<and> take 2 [c. ToolMessage c i \<leftarrow>
               fst (invocations (snd (run_chat sample_runtime scripted_model ''hi'' [] empty_world)) ! Suc 0)]
       = [PStr (unknown_tool_error ''delete_file''),
          PStr (tool_run_error ''read_json'' validation_error)]
   \<and> fst (run_chat sample_runtime scripted_model ''hi'' [] empty_world) = Inr ''Done.''"
proof -
  let ?R = "run_chat sample_runtime scripted_model ''hi'' [] empty_world"
  have u: "lookup_tool (call_name (scripted_calls ! 0)) = None" by code_simp
  have ui: "call_id (scripted_calls ! 0) = Some ''c1''" by code_simp
  have un: "name_text (call_name (scripted_calls ! 0)) = ''delete_file''" by code_simp
  have k: "lookup_tool (call_name (scripted_calls ! 1)) = Some ReadJson" by code_simp
  have ki: "call_id (scripted_calls ! 1) = Some ''c2''" by code_simp
  have kn: "name_text (call_name (scripted_calls ! 1)) = ''read_json''" by code_simp
  have ka: "call_args (scripted_calls ! 1) = [(''filepath'', PInt 3)]" by code_simp
  have i: "invoke sample_runtime ReadJson (call_args (scripted_calls ! 1)) empty_world
      = (Inl validation_error, empty_world)"
    unfolding ka
    by (simp add: invoke_def sample_runtime_def sample_bind_read_json_def)
  have ids: "list_all (\<lambda>c. call_id c \<noteq> None) scripted_calls" by code_simp
  have len: "length (invocations (snd ?R)) = 2" by code_simp
  then have lt: "Suc 0 < length (invocations (snd ?R))" by simp
  have tk: "take 2 [c. ToolMessage c i \<leftarrow> fst (invocations (snd ?R) ! Suc 0)]
       = [PStr (unknown_tool_error ''delete_file''),
          PStr (tool_run_error ''read_json'' validation_error)]"
    by code_simp
  have r: "fst ?R = Inr ''Done.''" by code_simp
  note T1 = tool_failures_stay_in_loop [where tc = "scripted_calls ! 0" and rt = sample_runtime
      and ms = "[]" and wa = empty_world and i = "''c1''" and tcs = scripted_calls
      and model = scripted_model and input_text = "''hi''" and history_msgs = "[]"
      and w = empty_world]
  have 1: "exec_tool_call sample_runtime (scripted_calls ! 0) ([], empty_world)
      = (None, [ToolMessage (PStr (unknown_tool_error ''delete_file'')) ''c1''], empty_world)"
    using T1 u ui by (simp add: un)
  have 3: "\<exists>tms w'. exec_tool_calls sample_runtime scripted_calls ([], empty_world) = (None, [] @ tms, w')
         \<and> length tms = length scripted_calls"
    using T1 ids by blast
  have 4: "round_step sample_runtime scripted_model
        (invocations (snd ?R) ! 0) (invocations (snd ?R) ! Suc 0)"
    using T1 lt by blast
  have "exec_tool_call sample_runtime (scripted_calls ! 1) ([], empty_world)
      = (None,
         [] @ [ToolMessage
                 (PStr (tool_run_error (name_text (call_name (scripted_calls ! 1)))
                          validation_error)) ''c2''],
         empty_world)"
    using tool_failures_stay_in_loop [where tc = "scripted_calls ! 1" and rt = sample_runtime
        and ms = "[]" and wa = empty_world and t = ReadJson and e = validation_error
        and wb = empty_world and i = "''c2''"] k i ki
    by blast
  then have 2: "exec_tool_call sample_runtime (scripted_calls ! 1) ([], empty_world)
      = (None, [ToolMessage (PStr (tool_run_error ''read_json'' validation_error)) ''c2''],
         empty_world)"
    by (simp only: kn append_Nil)
  from u ui 1 k i ki 2 ids 3 lt 4 tk r show ?thesis by blast
qed

text \<open>
  Claim C3 as it was stated has \<open>run_chat\<close> never raise from the tool path. The
  \<open>ToolMessage\<close> of a call is constructed outside the \<open>try\<close>, and \<^verbatim>\<open>tc.get("id", "")\<close> is
  \<open>None\<close> for a tool call whose id is \<open>None\<close>: a reply that asks for the unregistered tool
  \<open>delete_file\<close> in such a call makes \<open>run_chat\<close> raise the validation error of the
  constructor, and no \<open>ToolMessage\<close> is appended.
\<close>

theorem unknown_tool_null_id_raises:
  "lookup_tool (Some ''delete_file'') = None
   \<and> fst (run_chat sample_runtime unknown_null_id_model ''hi'' [] empty_world)
       = Inl tool_message_error
   \<and> [c. ToolMessage c i \<leftarrow>
         messages (snd (run_chat sample_runtime unknown_null_id_model ''hi'' [] empty_world))] = []"
  by code_simp

text \<open>
  Claim C10. The content of every \<open>ToolMessage\<close> that \<open>run_chat\<close> appends is a string,
  the \<open>str(...)\<close> of the tool's result. For a call of a registered tool with an id that
  is a string, the message appended is the \<open>ToolMessage\<close> whose content is \<open>str(result)\<close>,
  where \<open>result\<close> is what the tool returned or the error text of what it raised, and the
  remaining calls are run on; when the tool returns the value \<open>v\<close>, the content is
  \<open>str(v)\<close>; \<open>generate_sample_user\<close> returns a dict, which is not a string, and the content
  is the text \<open>str\<close> gives for that dict. The rounds of \<open>run_chat\<close> are these steps: each
  model invocation but the last is followed by the run of every call of the reply, and the
  next invocation is sent the messages so reached; the last invocation ends the run as
  \<open>last_round\<close> says. Every message the run adds to the initial ones is either not a
  \<open>ToolMessage\<close> or has a string content.
\<close>

theorem tool_message_content_is_str:
  "(lookup_tool (call_name tc) = Some t \<and> call_id tc = Some i \<longrightarrow>
      exec_tool_call rt tc (ms, wa) =
        (None,
         ms @ [ToolMessage
                 (PStr (py_str rt (fst (try_invoke rt t (call_name tc) (call_args tc) wa)))) i],
         snd (try_invoke rt t (call_name tc) (call_args tc) wa))
      \<and> exec_tool_calls rt (tc # tcs) (ms, wa) =
          exec_tool_calls rt tcs
            (ms @ [ToolMessage
                     (PStr (py_str rt (fst (try_invoke rt t (call_name tc) (call_args tc) wa)))) i],
             snd (try_invoke rt t (call_name tc) (call_args tc) wa)))
   \<and> (lookup_tool (call_name tc) = Some t \<and> invoke rt t (call_args tc) wa = (Inr v, wb)
       \<and> call_id tc = Some i \<longrightarrow>
      exec_tool_call rt tc (ms, wa) = (None, ms @ [ToolMessage (PStr (py_str rt v)) i], wb)
      \<and> exec_tool_calls rt (tc # tcs) (ms, wa) =
          exec_tool_calls rt tcs (ms @ [ToolMessage (PStr (py_str rt v)) i], wb))
   \<and> (lookup_tool (call_name tc) = Some GenerateSampleUser
       \<and> bind_generate_sample_user rt (call_args tc) = Inr (fn, ln, dm, a, b)
       \<and> call_id tc = Some i \<longrightarrow>
      (\<exists>d w'. invoke rt GenerateSampleUser (call_args tc) wa = (Inr (dict_val d), w')
         \<and> \<not> is_str (dict_val d)
         \<and> exec_tool_call rt tc (ms, wa)
             = (None, ms @ [ToolMessage (PStr (py_repr rt (dict_val d))) i], w')))
   \<and> (\<forall>k. Suc k < length (invocations (snd (run_chat rt model input_text history_msgs w))) \<longrightarrow>
        round_step rt model
          (invocations (snd (run_chat rt model input_text history_msgs w)) ! k)
          (invocations (snd (run_chat rt model input_text history_msgs w)) ! Suc k))
   \<and> last_round rt model (last (invocations (snd (run_chat rt model input_text history_msgs w))))
        (fst (run_chat rt model input_text history_msgs w),
         messages (snd (run_chat rt model input_text history_msgs w)),
         env_world (snd (run_chat rt model input_text history_msgs w)))
   \<and> (\<exists>added. messages (snd (run_chat rt model input_text history_msgs w))
                 = initial_messages input_text history_msgs @ added
          \<and> list_all tool_content_is_str added)"
proof -
  let ?R = "run_chat rt model input_text history_msgs w"
  let ?inv = "invocations (snd ?R)"
  let ?res = "try_invoke rt t (call_name tc) (call_args tc) wa"
  have a0: "exec_tool_call rt tc (ms, wa) =
        (None, ms @ [ToolMessage (PStr (py_str rt (fst ?res))) i], snd ?res)
      \<and> exec_tool_calls rt (tc # tcs) (ms, wa) =
          exec_tool_calls rt tcs (ms @ [ToolMessage (PStr (py_str rt (fst ?res))) i], snd ?res)"
    if "lookup_tool (call_name tc) = Some t \<and> call_id tc = Some i"
  proof -
    from that have 1: "exec_tool_call rt tc (ms, wa) =
        (None, ms @ [ToolMessage (PStr (py_str rt (fst ?res))) i], snd ?res)"
      by (simp add: exec_tool_call_known)
    then have "exec_tool_calls rt (tc # tcs) (ms, wa) =
          exec_tool_calls rt tcs (ms @ [ToolMessage (PStr (py_str rt (fst ?res))) i], snd ?res)"
      by simp
    with 1 show ?thesis by blast
  qed
  have a: "exec_tool_call rt tc (ms, wa) = (None, ms @ [ToolMessage (PStr (py_str rt v)) i], wb)
      \<and> exec_tool_calls rt (tc # tcs) (ms, wa) =
          exec_tool_calls rt tcs (ms @ [ToolMessage (PStr (py_str rt v)) i], wb)"
    if "lookup_tool (call_name tc) = Some t \<and> invoke rt t (call_args tc) wa = (Inr v, wb)
       \<and> call_id tc = Some i"
  proof -
    from that have 1: "exec_tool_call rt tc (ms, wa)
        = (None, ms @ [ToolMessage (PStr (py_str rt v)) i], wb)"
      by (simp add: exec_tool_call_returned)
    then have "exec_tool_calls rt (tc # tcs) (ms, wa) =
          exec_tool_calls rt tcs (ms @ [ToolMessage (PStr (py_str rt v)) i], wb)"
      by simp
    with 1 show ?thesis by blast
  qed
  have b: "\<exists>d w'. invoke rt GenerateSampleUser (call_args tc) wa = (Inr (dict_val d), w')
         \<and> \<not> is_str (dict_val d)
         \<and> exec_tool_call rt tc (ms, wa)
             = (None, ms @ [ToolMessage (PStr (py_repr rt (dict_val d))) i], w')"
    if h: "lookup_tool (call_name tc) = Some GenerateSampleUser
       \<and> bind_generate_sample_user rt (call_args tc) = Inr (fn, ln, dm, a, b)
       \<and> call_id tc = Some i"
  proof -
    obtain d w' where "generate_sample_user rt fn ln dm a b wa = (Inr d, w')"
      using generate_returns_dict by blast
    with h have i: "invoke rt GenerateSampleUser (call_args tc) wa = (Inr (dict_val d), w')"
      by (simp add: invoke_def)
    from h i have "exec_tool_call rt tc (ms, wa)
        = (None, ms @ [ToolMessage (PStr (py_str rt (dict_val d))) i], w')"
      by (simp add: exec_tool_call_returned)
    then have "exec_tool_call rt tc (ms, wa)
        = (None, ms @ [ToolMessage (PStr (py_repr rt (dict_val d))) i], w')"
      by (simp add: py_str_def dict_val_def)
    with i show ?thesis by (auto simp: is_str_def dict_val_def)
  qed
  from run_chat_trace [of rt model input_text history_msgs w]
  have s: "successively (round_step rt model) ?inv"
    and l: "last_round rt model (last ?inv) (fst ?R, messages (snd ?R), env_world (snd ?R))"
    by blast+
  have f: "round_step rt model (?inv ! k) (?inv ! Suc k)" if "Suc k < length ?inv" for k
    using successively_nth [OF s that] .
  let ?st = "\<lparr>messages = initial_messages input_text history_msgs, env_world = w, invocations = []\<rparr>"
  obtain added where "messages (snd (chat_rounds rt model 8 ?st)) = messages ?st @ added"
    and "list_all tool_content_is_str added"
    using chat_rounds_added [of rt model 8 ?st] by blast
  then have d: "\<exists>added. messages (snd ?R) = initial_messages input_text history_msgs @ added
          \<and> list_all tool_content_is_str added"
    by (auto simp: run_chat_def)
  from a0 a b f l d show ?thesis by blast
qed

theorem tool_message_content_is_str_witness:
  "lookup_tool (call_name (scripted_calls ! 2)) = Some GenerateSampleUser
   \<and> bind_generate_sample_user sample_runtime (call_args (scripted_calls ! 2))
       = Inr ([''Ann''], [''Lee''], [''Example.ORG''], 20, 30)
   \<and> call_id (scripted_calls ! 2) = Some ''c3''
   \<and> (\<exists>d w'. invoke sample_runtime GenerateSampleUser (call_args (scripted_calls ! 2)) empty_world
                = (Inr (dict_val d), w')
         \<and> \<not> is_str (dict_val d)
         \<and> exec_tool_call sample_runtime (scripted_calls ! 2) ([], empty_world)
             = (None, [ToolMessage (PStr (py_repr sample_runtime (dict_val d))) ''c3''], w'))
   \<and> Suc 0 < length (invocations (snd (run_chat sample_runtime scripted_model ''hi'' [] empty_world)))
   \<and> round_step sample_runtime scripted_model
        (invocations (snd (run_chat sample_runtime scripted_model ''hi'' [] empty_world)) ! 0)
        (invocations (snd (run_chat sample_runtime scripted_model ''hi'' [] empty_world)) ! Suc 0)
   \<and> [c. ToolMessage c i \<leftarrow>
         fst (invocations (snd (run_chat sample_runtime scripted_model ''hi'' [] empty_world)) ! Suc 0)]
       = [PStr (unknown_tool_error ''delete_file''),
          PStr (tool_run_error ''read_json'' validation_error),
          PStr ''{...}'',
          PStr (''Successfully wrote JSON to '' @ quoted ''out.json'' @ '' (12 characters).'')]
   \<and> [c. ToolMessage c i \<leftarrow> messages (snd (run_chat sample_runtime scripted_model ''hi'' [] empty_world))]
       = [PStr (unknown_tool_error ''delete_file''),
          PStr (tool_run_error ''read_json'' validation_error),
          PStr ''{...}'',
          PStr (''Successfully wrote JSON to '' @ quoted ''out.json'' @ '' (12 characters).'')]"
proof -
  let ?R = "run_chat sample_runtime scripted_model ''hi'' [] empty_world"
  have t: "lookup_tool (call_name (scripted_calls ! 2)) = Some GenerateSampleUser" by code_simp
  have g: "bind_generate_sample_user sample_runtime (call_args (scripted_calls ! 2))
       = Inr ([''Ann''], [''Lee''], [''Example.ORG''], 20, 30)"
    by code_simp
  have ci: "call_id (scripted_calls ! 2) = Some ''c3''" by code_simp
  have len: "length (invocations (snd ?R)) = 2" by code_simp
  then have lt: "Suc 0 < length (invocations (snd ?R))" by simp
  have n: "[c. ToolMessage c i \<leftarrow> fst (invocations (snd ?R) ! Suc 0)]
       = [PStr (unknown_tool_error ''delete_file''),
          PStr (tool_run_error ''read_json'' validation_error),
          PStr ''{...}'',
          PStr (''Successfully wrote JSON to '' @ quoted ''out.json'' @ '' (12 characters).'')]"
    by code_simp
  have m: "[c. ToolMessage c i \<leftarrow> messages (snd ?R)]
       = [PStr (unknown_tool_error ''delete_file''),
          PStr (tool_run_error ''read_json'' validation_error),
          PStr ''{...}'',
          PStr (''Successfully wrote JSON to '' @ quoted ''out.json'' @ '' (12 characters).'')]"
    by code_simp
  note T = tool_message_content_is_str [where tc = "scripted_calls ! 2" and rt = sample_runtime
      and ms = "[]" and wa = empty_world and fn = "[''Ann'']" and ln = "[''Lee'']"
      and dm = "[''Example.ORG'']" and a = 20 and b = 30 and i = "''c3''"
      and model = scripted_model and input_text = "''hi''" and history_msgs = "[]"
      and w = empty_world]
  have "\<exists>d w'. invoke sample_runtime GenerateSampleUser (call_args (scripted_calls ! 2)) empty_world
                = (Inr (dict_val d), w')
         \<and> \<not> is_str (dict_val d)
         \<and> exec_tool_call sample_runtime (scripted_calls ! 2) ([], empty_world)
             = (None, [] @ [ToolMessage (PStr (py_repr sample_runtime (dict_val d))) ''c3''], w')"
    using T t g ci by blast
  then have 1: "\<exists>d w'. invoke sample_runtime GenerateSampleUser (call_args (scripted_calls ! 2)) empty_world
                = (Inr (dict_val d), w')
         \<and> \<not> is_str (dict_val d)
         \<and> exec_tool_call sample_runtime (scripted_calls ! 2) ([], empty_world)
             = (None, [ToolMessage (PStr (py_repr sample_runtime (dict_val d))) ''c3''], w')"
    by (simp only: append_Nil)
  have 2: "round_step sample_runtime scripted_model
        (invocations (snd ?R) ! 0) (invocations (snd ?R) ! Suc 0)"
    using T lt by blast
  from t g ci 1 lt 2 n m show ?thesis by blast
qed

end
